theory Spec2Isabelle
  imports Main
begin

section \<open>Strings and bytes\<close>

text \<open>
  A Go \<^verbatim>\<open>string\<close> is a sequence of bytes, so it is modelled as \<^typ>\<open>string\<close>
  (a list of 8-bit \<^typ>\<open>char\<close>); a code point beyond ASCII is the sequence of its
  UTF-8 bytes.  \<open>byte c\<close> is the numeric value of a byte.
\<close>

definition byte :: "char \<Rightarrow> nat" where
  "byte c = of_char c"

abbreviation LF :: char where "LF \<equiv> CHR 0x0A"
abbreviation CR :: char where "CR \<equiv> CHR 0x0D"
abbreviation TAB :: char where "TAB \<equiv> CHR 0x09"
abbreviation ESC :: char where "ESC \<equiv> CHR 0x1B"

section \<open>Data model (main.go, lines 14-47)\<close>

record Options =
  Format :: string
  Pretty :: int
  NoRedirect :: int
  NoHTML :: int
  SkipDisambig :: int

record RelatedTopic =
  FirstURL :: string
  Text :: string

record Response =
  AbstractText :: string
  AbstractURL :: string
  RelatedTopics :: "RelatedTopic list"

text \<open>The map \<^verbatim>\<open>TerminalColors\<close>; a key that is absent yields the empty string, as a
  Go map of strings does.\<close>

definition TerminalColors :: "string \<Rightarrow> string" where
  "TerminalColors k =
     (if k = ''Reset'' then ESC # ''[0m''
      else if k = ''Red'' then ESC # ''[31m''
      else if k = ''Green'' then ESC # ''[33m''
      else if k = ''Blue'' then ESC # ''[34m''
      else if k = ''White'' then ESC # ''[37m''
      else if k = ''Yellow'' then ESC # ''[33m''
      else [])"

section \<open>The library functions used by getAPIURL\<close>

subsection \<open>url.QueryEscape and url.QueryUnescape\<close>

text \<open>
  \<^verbatim>\<open>url.QueryEscape\<close> is \<^verbatim>\<open>escape(s, encodeQueryComponent)\<close>.  In that mode
  \<^verbatim>\<open>shouldEscape\<close> keeps the letters, the digits and the four marks
  \<^verbatim>\<open>- _ . ~\<close>, and escapes every other byte; \<^verbatim>\<open>escape\<close> writes a space as
  \<^verbatim>\<open>+\<close> and any other escaped byte \<open>c\<close> as \<^verbatim>\<open>%\<close> followed by
  \<^verbatim>\<open>upperhex[c>>4]\<close> and \<^verbatim>\<open>upperhex[c&15]\<close>.
\<close>

definition isAlnum :: "char \<Rightarrow> bool" where
  "isAlnum c =
     (let n = byte c in (97 \<le> n \<and> n \<le> 122) \<or> (65 \<le> n \<and> n \<le> 90) \<or> (48 \<le> n \<and> n \<le> 57))"

definition shouldEscape :: "char \<Rightarrow> bool" where
  "shouldEscape c =
     (if isAlnum c then False
      else if c \<in> {CHR ''-'', CHR ''_'', CHR ''.'', CHR ''~''} then False
      else True)"

definition upperhex :: "nat \<Rightarrow> char" where
  "upperhex n = ''0123456789ABCDEF'' ! n"

fun escape :: "string \<Rightarrow> string" where
  "escape [] = []"
| "escape (c # cs) =
     (if c = CHR '' '' then CHR ''+'' # escape cs
      else if shouldEscape c
        then CHR ''%'' # upperhex (byte c div 16) # upperhex (byte c mod 16) # escape cs
      else c # escape cs)"

definition QueryEscape :: "string \<Rightarrow> string" where
  "QueryEscape s = escape s"

text \<open>
  \<^verbatim>\<open>url.QueryUnescape\<close> is \<^verbatim>\<open>unescape(s, encodeQueryComponent)\<close>: a \<^verbatim>\<open>%\<close> must be
  followed by two hexadecimal digits (else the call returns an \<^verbatim>\<open>EscapeError\<close>, the
  value \<open>None\<close> here) and stands for the byte
  \<^verbatim>\<open>unhex(s[i+1])<<4 | unhex(s[i+2])\<close>; a \<^verbatim>\<open>+\<close> stands for a space.
\<close>

definition ishex :: "char \<Rightarrow> bool" where
  "ishex c =
     (let n = byte c in (48 \<le> n \<and> n \<le> 57) \<or> (97 \<le> n \<and> n \<le> 102) \<or> (65 \<le> n \<and> n \<le> 70))"

definition unhex :: "char \<Rightarrow> nat" where
  "unhex c =
     (let n = byte c in
      if 48 \<le> n \<and> n \<le> 57 then n - 48
      else if 97 \<le> n \<and> n \<le> 102 then n - 97 + 10
      else if 65 \<le> n \<and> n \<le> 70 then n - 65 + 10
      else 0)"

fun unescape :: "string \<Rightarrow> string option" where
  "unescape [] = Some []"
| "unescape (c # cs) =
     (if c = CHR ''%'' then
        (case cs of
           h # l # rest \<Rightarrow>
             if ishex h \<and> ishex l
             then map_option ((#) (char_of (unhex h * 16 + unhex l))) (unescape rest)
             else None
         | _ \<Rightarrow> None)
      else if c = CHR ''+'' then map_option ((#) CHR '' '') (unescape cs)
      else map_option ((#) c) (unescape cs))"

definition QueryUnescape :: "string \<Rightarrow> string option" where
  "QueryUnescape s = unescape s"

subsection \<open>fmt.Sprintf with the verb %d\<close>

text \<open>The decimal digits of a natural number, without leading zeros, and the
  rendering of a Go \<^verbatim>\<open>int\<close> by \<^verbatim>\<open>%d\<close>: a minus sign for a negative value.\<close>

fun digits :: "nat \<Rightarrow> string" where
  "digits n =
     (if n < 10 then [''0123456789'' ! n]
      else digits (n div 10) @ [''0123456789'' ! (n mod 10)])"

definition Sprintf_d :: "int \<Rightarrow> string" where
  "Sprintf_d i = (if i < 0 then CHR ''-'' # digits (nat (- i)) else digits (nat i))"

section \<open>getAPIURL (main.go, lines 76-81)\<close>

definition getAPIURL :: "string \<Rightarrow> Options \<Rightarrow> string" where
  "getAPIURL queryString options =
     (let queryString = QueryEscape queryString in
      ''https://api.duckduckgo.com/?q='' @ queryString
      @ ''&format='' @ Format options
      @ ''&pretty='' @ Sprintf_d (Pretty options)
      @ ''&no_redirect='' @ Sprintf_d (NoRedirect options)
      @ ''&no_html='' @ Sprintf_d (NoHTML options)
      @ ''&skip_disambig='' @ Sprintf_d (SkipDisambig options)
      @ ''&t=duckduckgo-answers'')"

text \<open>The value of the first parameter of the URL: the text between \<^verbatim>\<open>?q=\<close> and
  the next \<^verbatim>\<open>&\<close>.\<close>

definition q_component :: "string \<Rightarrow> string" where
  "q_component u =
     takeWhile (\<lambda>c. c \<noteq> CHR ''&'') (drop (length ''https://api.duckduckgo.com/?q='') u)"

text \<open>The options that \<open>main\<close> builds once (lines 160-166) and passes to every call.\<close>

definition queryOptions :: Options where
  "queryOptions = \<lparr>Format = ''json'', Pretty = 1, NoRedirect = 1, NoHTML = 1, SkipDisambig = 1\<rparr>"

text \<open>A flag of the options is boolean-like when it is 0 or 1; \<open>flag_digit\<close> is the
  character that stands for it.\<close>

definition boolean_like :: "int \<Rightarrow> bool" where
  "boolean_like i = (i = 0 \<or> i = 1)"

definition flag_digit :: "int \<Rightarrow> char" where
  "flag_digit i = (if i = 0 then CHR ''0'' else CHR ''1'')"


section \<open>Errors, output and the outcome of a run\<close>

text \<open>
  A Go \<^verbatim>\<open>error\<close> value: \<^verbatim>\<open>io.EOF\<close>, an error made by \<^verbatim>\<open>fmt.Errorf\<close>,
  \<^verbatim>\<open>bufio.ErrTooLong\<close>, or any other failure reported by the operating system or a
  library, with its message.  \<open>Error\<close> is the method \<^verbatim>\<open>Error()\<close>.
\<close>

datatype error = EOF | Errorf string | ErrTooLong | Failure string

fun Error :: "error \<Rightarrow> string" where
  "Error EOF = ''EOF''"
| "Error (Errorf msg) = msg"
| "Error ErrTooLong = ''bufio.Scanner: token too long''"
| "Error (Failure msg) = msg"

text \<open>
  What the program does to the outside, in order: a write to standard output (one
  event per call of \<^verbatim>\<open>fmt.Print\<close>, \<^verbatim>\<open>fmt.Println\<close> or \<^verbatim>\<open>fmt.Printf\<close>, with the
  bytes written), the usage text of \<^verbatim>\<open>flag.PrintDefaults\<close>, a request
  \<^verbatim>\<open>http.Get(url)\<close>, and the call \<^verbatim>\<open>response.Body.Close()\<close>.
\<close>

datatype event = Stdout string | PrintDefaults | HttpGet string | BodyClose

text \<open>
  How a run ends: \<^verbatim>\<open>os.Exit(code)\<close>, a panic that nothing recovers, or never (the
  process waits for ever for input or for the network).
\<close>

datatype outcome = Exit int | Panic error | Blocked

text \<open>The result of a step that may end the run.\<close>

datatype 'a result = Ok 'a | Abort outcome

text \<open>\<^verbatim>\<open>fmt.Println\<close> writes its operands separated by a space, then a newline;
  \<^verbatim>\<open>fmt.Print\<close> of one string writes the string.\<close>

fun join_sp :: "string list \<Rightarrow> string" where
  "join_sp [] = []"
| "join_sp [a] = a"
| "join_sp (a # b # bs) = a @ '' '' @ join_sp (b # bs)"

definition Println :: "string list \<Rightarrow> event" where
  "Println operands = Stdout (join_sp operands @ [LF])"

definition Print :: "string \<Rightarrow> event" where
  "Print s = Stdout s"

section \<open>The library functions used by searchPrompt\<close>

subsection \<open>utf8.DecodeRuneInString, utf8.DecodeLastRuneInString, unicode.IsSpace\<close>

text \<open>A rune is a code point, a natural number.  \<open>DecodeRune\<close> returns the rune at
  the head of a string and its width in bytes; a malformed encoding yields
  \<open>RuneError\<close> with width 1 (width 0 for the empty string).\<close>

definition RuneError :: nat where
  "RuneError = 0xFFFD"

definition DecodeRune :: "string \<Rightarrow> nat \<times> nat" where
  "DecodeRune s =
     (case map byte s of
        [] \<Rightarrow> (RuneError, 0)
      | s0 # t \<Rightarrow>
          if s0 < 0x80 then (s0, 1)
          else if s0 < 0xC2 \<or> 0xF4 < s0 then (RuneError, 1)
          else
            let sz = (if s0 < 0xE0 then 2 else if s0 < 0xF0 then 3 else (4::nat));
                lo = (if s0 = 0xE0 then 0xA0 else if s0 = 0xF0 then 0x90 else 0x80);
                hi = (if s0 = 0xED then 0x9F else if s0 = 0xF4 then 0x8F else 0xBF)
            in if length s < sz then (RuneError, 1)
               else
                 let s1 = t ! 0 in
                 if s1 < lo \<or> hi < s1 then (RuneError, 1)
                 else if sz \<le> 2 then ((s0 mod 32) * 64 + s1 mod 64, 2)
                 else
                   let s2 = t ! 1 in
                   if s2 < 0x80 \<or> 0xBF < s2 then (RuneError, 1)
                   else if sz \<le> 3 then ((s0 mod 16) * 4096 + (s1 mod 64) * 64 + s2 mod 64, 3)
                   else
                     let s3 = t ! 2 in
                     if s3 < 0x80 \<or> 0xBF < s3 then (RuneError, 1)
                     else ((s0 mod 8) * 262144 + (s1 mod 64) * 4096 + (s2 mod 64) * 64
                             + s3 mod 64, 4))"

text \<open>\<^verbatim>\<open>utf8.EncodeRune\<close>: the UTF-8 bytes of a code point; a surrogate half or a code
  point beyond \<^verbatim>\<open>U+10FFFF\<close> is encoded as \<open>RuneError\<close>.\<close>

definition EncodeRune :: "nat \<Rightarrow> string" where
  "EncodeRune r =
     (if r \<le> 0x7F then [char_of r]
      else if r \<le> 0x7FF then [char_of (0xC0 + r div 64), char_of (0x80 + r mod 64)]
      else if 0x10FFFF < r \<or> (0xD800 \<le> r \<and> r \<le> 0xDFFF) then [CHR 0xEF, CHR 0xBF, CHR 0xBD]
      else if r \<le> 0xFFFF then
        [char_of (0xE0 + r div 4096), char_of (0x80 + (r div 64) mod 64), char_of (0x80 + r mod 64)]
      else
        [char_of (0xF0 + r div 262144), char_of (0x80 + (r div 4096) mod 64),
         char_of (0x80 + (r div 64) mod 64), char_of (0x80 + r mod 64)])"

text \<open>\<^verbatim>\<open>RuneStart(b)\<close>: the byte is not a continuation byte \<^verbatim>\<open>10xxxxxx\<close>.\<close>

definition RuneStart :: "nat \<Rightarrow> bool" where
  "RuneStart b = (b div 64 \<noteq> 2)"

text \<open>The backward search of \<^verbatim>\<open>DecodeLastRuneInString\<close>:
  \<^verbatim>\<open>for start--; start >= lim; start-- { if RuneStart(s[start]) { break } }\<close>
  followed by \<^verbatim>\<open>if start < 0 { start = 0 }\<close>.\<close>

fun scan_back :: "string \<Rightarrow> nat \<Rightarrow> nat \<Rightarrow> nat" where
  "scan_back s 0 lim = 0"
| "scan_back s (Suc p) lim =
     (if p < lim then p
      else if RuneStart (byte (s ! p)) then p
      else scan_back s p lim)"

definition DecodeLastRune :: "string \<Rightarrow> nat \<times> nat" where
  "DecodeLastRune s =
     (let endpos = length s in
      if endpos = 0 then (RuneError, 0)
      else
        let r = byte (s ! (endpos - 1)) in
        if r < 0x80 then (r, 1)
        else
          let lim = endpos - 4;
              start = scan_back s (endpos - 1) lim;
              (r, size) = DecodeRune (drop start s)
          in if start + size \<noteq> endpos then (RuneError, 1) else (r, size))"

definition IsSpace :: "nat \<Rightarrow> bool" where
  "IsSpace r =
     (if r \<le> 0xFF then r \<in> {0x09, 0x0A, 0x0B, 0x0C, 0x0D, 0x20, 0x85, 0xA0}
      else r = 0x1680 \<or> (0x2000 \<le> r \<and> r \<le> 0x200A) \<or> r = 0x2028 \<or> r = 0x2029
           \<or> r = 0x202F \<or> r = 0x205F \<or> r = 0x3000)"

subsection \<open>strings.TrimSpace\<close>

text \<open>
  \<^verbatim>\<open>TrimSpace\<close> removes all leading and trailing white space, as defined by
  Unicode: it is \<^verbatim>\<open>TrimRightFunc(TrimLeftFunc(s, unicode.IsSpace), unicode.IsSpace)\<close>
  (with a fast path for ASCII that returns the same string).  The left trim decodes
  runes forwards, the right trim backwards.
\<close>

lemma DecodeRune_size: "s \<noteq> [] \<Longrightarrow> 0 < snd (DecodeRune s)"
  by (cases s) (simp_all add: DecodeRune_def Let_def)

lemma scan_back_le: "scan_back s p lim \<le> p"
  by (induction p) simp_all

lemma DecodeLastRune_size: "s \<noteq> [] \<Longrightarrow> 0 < snd (DecodeLastRune s)"
proof -
  assume ne: "s \<noteq> []"
  have "scan_back s (length s - 1) (length s - 4) < length s"
    using scan_back_le [of s "length s - 1" "length s - 4"] ne
    by (cases s) simp_all
  then show ?thesis
    using ne by (auto simp add: DecodeLastRune_def Let_def split: prod.splits)
qed

function TrimLeftSpace :: "string \<Rightarrow> string" where
  "TrimLeftSpace s =
     (if s = [] then []
      else if IsSpace (fst (DecodeRune s)) then TrimLeftSpace (drop (snd (DecodeRune s)) s)
      else s)"
  by pat_completeness auto
termination
  by (relation "measure length") (auto simp: DecodeRune_size)

declare TrimLeftSpace.simps [simp del]

function TrimRightSpace :: "string \<Rightarrow> string" where
  "TrimRightSpace s =
     (if s = [] then []
      else if IsSpace (fst (DecodeLastRune s))
        then TrimRightSpace (take (length s - snd (DecodeLastRune s)) s)
      else s)"
  by pat_completeness auto
termination
  by (relation "measure length") (auto simp: DecodeLastRune_size)

declare TrimRightSpace.simps [simp del]

definition TrimSpace :: "string \<Rightarrow> string" where
  "TrimSpace s = TrimRightSpace (TrimLeftSpace s)"

subsection \<open>Standard input and bufio.Reader.ReadString\<close>

text \<open>
  Standard input is the sequence of results that the calls \<^verbatim>\<open>os.Stdin.Read\<close> will
  return: a chunk of bytes or an error.  A read of an empty chunk is reported by
  \<^verbatim>\<open>os.File.Read\<close> as \<^verbatim>\<open>io.EOF\<close>.  When the sequence is exhausted the next read
  never returns.
\<close>

datatype read_event = Data string | ReadErr error

text \<open>
  \<^verbatim>\<open>ReadString('\n')\<close> on a fresh \<^verbatim>\<open>bufio.Reader\<close>: it reads chunks until one holds
  the delimiter and returns the bytes up to and including the delimiter; when a read
  fails first it returns the bytes read so far and the error.  The first argument is
  what has been read so far.  Since \<open>searchPrompt\<close> makes a new reader at every call,
  the bytes of the last chunk after the delimiter are lost with the reader.
  The result is \<open>None\<close> when the call never returns.
\<close>

fun ReadString :: "string \<Rightarrow> read_event list \<Rightarrow> ((string \<times> error option) \<times> read_event list) option" where
  "ReadString sofar [] = None"
| "ReadString sofar (ReadErr e # rest) = Some ((sofar, Some e), rest)"
| "ReadString sofar (Data d # rest) =
     (if d = [] then Some ((sofar, Some EOF), rest)
      else if LF \<in> set d
        then Some ((sofar @ takeWhile (\<lambda>c. c \<noteq> LF) d @ [LF], None), rest)
      else ReadString (sofar @ d) rest)"

section \<open>searchPrompt (main.go, lines 58-73)\<close>

text \<open>
  The result is the output written, and \<open>None\<close> when the read never returns, else the
  pair the function returns (an error, or the query with a nil error; the string
  returned with an error is always empty) and what is left of standard input.
\<close>

definition searchPrompt :: "read_event list \<Rightarrow> event list \<times> ((error + string) \<times> read_event list) option" where
  "searchPrompt stdin =
     ([Print (LF # ''Search: '')],
      (case ReadString [] stdin of
         None \<Rightarrow> None
       | Some ((query, err), stdin') \<Rightarrow>
           (case err of
              Some e \<Rightarrow> Some (Inl e, stdin')
            | None \<Rightarrow>
                if TrimSpace query = [] then Some (Inl (Errorf ''Invalid input''), stdin')
                else Some (Inr query, stdin'))))"

section \<open>The network and queryAPI (main.go, lines 83-91)\<close>

text \<open>
  An \<^verbatim>\<open>*http.Response\<close>, as far as the program reads it: the bytes that its body
  stream delivers; how the stream ends, with \<^verbatim>\<open>io.EOF\<close> (\<open>None\<close>, or \<open>Some EOF\<close>) or
  with a read error; and whether the read that returns the last bytes also returns
  what ends the stream (as the body of a response of known length does) or only a
  later read does.
\<close>

record http_Response =
  Body :: string
  BodyErr :: "error option"
  EndWithData :: bool

text \<open>
  The network is the sequence of answers that the calls \<^verbatim>\<open>http.Get\<close> will get, each a
  function of the URL requested: an error or a response.  When the sequence is
  exhausted the next request never returns (no timeout is configured).
\<close>

type_synonym network = "(string \<Rightarrow> error + http_Response) list"

definition queryAPI :: "string \<Rightarrow> network \<Rightarrow> event list \<times> http_Response result \<times> network" where
  "queryAPI apiURL net =
     (case net of
        [] \<Rightarrow> ([HttpGet apiURL], Abort Blocked, [])
      | server # net' \<Rightarrow>
          (case server apiURL of
             Inl err \<Rightarrow> ([HttpGet apiURL], Abort (Panic err), net')
           | Inr response \<Rightarrow> ([HttpGet apiURL], Ok response, net')))"

section \<open>bufio.Scanner and responseToString (main.go, lines 93-108)\<close>

definition MaxScanTokenSize :: nat where
  "MaxScanTokenSize = 64 * 1024"

definition dropCR :: "string \<Rightarrow> string" where
  "dropCR data = (if data \<noteq> [] \<and> last data = CR then butlast data else data)"

text \<open>The split function \<^verbatim>\<open>bufio.ScanLines\<close>: how far to advance and the token, if
  there is one.\<close>

definition ScanLines :: "string \<Rightarrow> bool \<Rightarrow> nat \<times> string option" where
  "ScanLines data atEOF =
     (if atEOF \<and> data = [] then (0, None)
      else if LF \<in> set data then
        (let i = length (takeWhile (\<lambda>c. c \<noteq> LF) data) in (i + 1, Some (dropCR (take i data))))
      else if atEOF then (length data, Some (dropCR data))
      else (0, None))"

text \<open>
  One call of \<^verbatim>\<open>Scan()\<close>, on what is left of the stream.  The scanner's buffer holds at
  most \<open>MaxScanTokenSize\<close> bytes: when the buffer is full, holds no newline and the end
  of the stream has not been seen, the scan stops with \<^verbatim>\<open>ErrTooLong\<close>.  This is so
  when the line has more bytes than the buffer, and when it has as many, unless it is
  the last line, has no newline and the read of its last bytes has returned the end of
  the stream with them (\<open>withData\<close>).  Otherwise the token is the one that \<open>ScanLines\<close>
  finds in the rest of the stream; when there is none, the scan stops with what ended
  the stream.
\<close>

datatype scan = Token string string | Stop "error option"

definition Scan :: "string \<Rightarrow> error option \<Rightarrow> bool \<Rightarrow> scan" where
  "Scan data err withData =
     (let i = length (takeWhile (\<lambda>c. c \<noteq> LF) data) in
      if MaxScanTokenSize < i \<or> (MaxScanTokenSize = i \<and> (LF \<in> set data \<or> \<not> withData))
        then Stop (Some ErrTooLong)
      else
        (case ScanLines data True of
           (advance, Some token) \<Rightarrow> Token token (drop advance data)
         | (advance, None) \<Rightarrow> Stop err))"

lemma Scan_shrinks: "Scan data err withData = Token token rest \<Longrightarrow> length rest < length data"
  by (cases data) (auto simp: Scan_def ScanLines_def Let_def split: if_splits)

text \<open>The loop \<^verbatim>\<open>for scanner.Scan() { stringResponse = append(stringResponse, scanner.Text()) }\<close>,
  with the error that stopped it.\<close>

function scan_loop :: "string list \<Rightarrow> string \<Rightarrow> error option \<Rightarrow> bool \<Rightarrow> string list \<times> error option" where
  "scan_loop stringResponse data err withData =
     (case Scan data err withData of
        Token token rest \<Rightarrow> scan_loop (stringResponse @ [token]) rest err withData
      | Stop e \<Rightarrow> (stringResponse, e))"
  by pat_completeness auto
termination
  by (relation "measure (\<lambda>(stringResponse, data, err, withData). length data)")
     (auto simp: Scan_shrinks)

declare scan_loop.simps [simp del]

text \<open>The method \<^verbatim>\<open>Err()\<close> of the scanner, from the error that stopped the scan:
  \<^verbatim>\<open>io.EOF\<close> is not reported as an error.\<close>

definition Err :: "error option \<Rightarrow> error option" where
  "Err e = (if e = Some EOF then None else e)"

text \<open>
  \<open>responseToString\<close> returns the events it causes and either the error it panics with
  (\<open>Inl\<close>) or the string it returns.  \<^verbatim>\<open>make([]string, 1)\<close> is a slice holding one empty
  string; \<^verbatim>\<open>strings.Join(..., "")\<close> is concatenation.
\<close>

definition responseToString :: "http_Response \<Rightarrow> event list \<times> (error + string)" where
  "responseToString response =
     (case scan_loop [[]] (Body response) (BodyErr response) (EndWithData response) of
        (stringResponse, e) \<Rightarrow>
          (case Err e of
             Some err \<Rightarrow> ([], Inl err)
           | None \<Rightarrow> ([BodyClose], Inr (concat stringResponse))))"

section \<open>unmarshalResponse (main.go, lines 110-120)\<close>

text \<open>
  \<^verbatim>\<open>json.Unmarshal\<close> of \<^verbatim>\<open>encoding/json\<close> is a parameter of the functions that call
  it: a function that, from the input and the value to fill, gives the value filled
  and the error returned, if any.  What is proved of the pipeline holds for any such
  function; the concrete runs use the model \<open>json_Unmarshal\<close> of the library function
  that is defined below.  \<open>unmarshalResponse\<close> starts from the zero \<open>Response\<close> and
  panics with the error (\<open>Inl\<close>).
\<close>

type_synonym unmarshal = "string \<Rightarrow> Response \<Rightarrow> Response \<times> error option"

definition unmarshalResponse :: "unmarshal \<Rightarrow> string \<Rightarrow> error + Response" where
  "unmarshalResponse Unmarshal jsonInput =
     (let jsonData = \<lparr>AbstractText = [], AbstractURL = [], RelatedTopics = []\<rparr> in
      case Unmarshal jsonInput jsonData of
        (jsonData', Some err) \<Rightarrow> Inl err
      | (jsonData', None) \<Rightarrow> Inr jsonData')"

section \<open>printResponse (main.go, lines 122-140)\<close>

text \<open>The calls of the loop body for one index \<open>key\<close> of \<open>RelatedTopics\<close>.\<close>

definition printTopic :: "Response \<Rightarrow> nat \<Rightarrow> event list" where
  "printTopic input key =
     [Println [TerminalColors ''Blue'', TAB # FirstURL (RelatedTopics input ! key)],
      Println [TerminalColors ''White'', TAB # Text (RelatedTopics input ! key) @ [LF]]]"

definition printResponse :: "Response \<Rightarrow> event list" where
  "printResponse input =
     [Stdout ([LF] @ '' '' @ AbstractText input @ '' '' @ [LF] @ '' '' @ [LF])]
     @ (if AbstractURL input \<noteq> []
        then [Println [TerminalColors ''Green'', ''More info:''],
              Println [TerminalColors ''Blue'', TAB # AbstractURL input @ [LF]]]
        else [])
     @ [Println [TerminalColors ''Green'', ''Related topics: '']]
     @ concat (map (printTopic input) [0..<length (RelatedTopics input)])
     @ [Print (TerminalColors ''Reset'')]"

section \<open>processAPIRequest (main.go, lines 142-157)\<close>

definition processAPIRequest :: "unmarshal \<Rightarrow> string \<Rightarrow> Options \<Rightarrow> network \<Rightarrow> event list \<times> unit result \<times> network" where
  "processAPIRequest Unmarshal query options net =
     (let queryURL = getAPIURL query options in
      case queryAPI queryURL net of
        (ev1, Abort out, net') \<Rightarrow> (ev1, Abort out, net')
      | (ev1, Ok apiResponse, net') \<Rightarrow>
          (case responseToString apiResponse of
             (ev2, Inl err) \<Rightarrow> (ev1 @ ev2, Abort (Panic err), net')
           | (ev2, Inr stringAnswer) \<Rightarrow>
               (case unmarshalResponse Unmarshal stringAnswer of
                  Inl err \<Rightarrow> (ev1 @ ev2, Abort (Panic err), net')
                | Inr parsedResponse \<Rightarrow>
                    (ev1 @ ev2 @ printResponse parsedResponse, Ok (), net'))))"

section \<open>main (main.go, lines 159-195)\<close>

text \<open>The command line after \<^verbatim>\<open>flag.Parse()\<close>: the values of \<^verbatim>\<open>-s\<close> and \<^verbatim>\<open>-h\<close>.\<close>

record flags =
  flagSearch :: string
  flagHelp :: bool

lemma ReadString_shrinks:
  "ReadString sofar stdin = Some (r, stdin') \<Longrightarrow> length stdin' < length stdin"
  by (induction sofar stdin rule: ReadString.induct) (auto split: if_splits)

lemma searchPrompt_shrinks:
  "searchPrompt stdin = (out, Some (r, stdin')) \<Longrightarrow> length stdin' < length stdin"
  by (auto simp: searchPrompt_def dest: ReadString_shrinks split: option.splits if_splits)

text \<open>
  The interactive loop \<^verbatim>\<open>for { ... }\<close>.  It has no exit: a run ends by a panic of the
  pipeline, or waits for ever for input or for the network.  Every iteration takes at
  least one result from standard input.
\<close>

function interactive :: "unmarshal \<Rightarrow> Options \<Rightarrow> read_event list \<Rightarrow> network \<Rightarrow> event list \<times> outcome" where
  "interactive Unmarshal options stdin net =
     (case searchPrompt stdin of
        (out, None) \<Rightarrow> (out, Blocked)
      | (out, Some (Inl err, stdin')) \<Rightarrow>
          (case interactive Unmarshal options stdin' net of
             (evs, e) \<Rightarrow> (out @ [Println [Error err]] @ evs, e))
      | (out, Some (Inr userInput, stdin')) \<Rightarrow>
          (case processAPIRequest Unmarshal userInput options net of
             (ev1, Abort e, net') \<Rightarrow> (out @ ev1, e)
           | (ev1, Ok u, net') \<Rightarrow>
               (case interactive Unmarshal options stdin' net' of
                  (evs, e) \<Rightarrow> (out @ ev1 @ evs, e))))"
  by pat_completeness auto
termination
  by (relation "measure (\<lambda>(Unmarshal, options, stdin, net). length stdin)")
     (auto dest: searchPrompt_shrinks [OF sym])

declare interactive.simps [simp del]

definition main :: "unmarshal \<Rightarrow> flags \<Rightarrow> read_event list \<Rightarrow> network \<Rightarrow> event list \<times> outcome" where
  "main Unmarshal fl stdin net =
     (if flagHelp fl \<noteq> False then ([PrintDefaults], Exit (- 1))
      else if flagSearch fl \<noteq> [] then
        (case processAPIRequest Unmarshal (flagSearch fl) queryOptions net of
           (evs, Abort e, net') \<Rightarrow> (evs, e)
         | (evs, Ok u, net') \<Rightarrow> (evs, Exit 1))
      else interactive Unmarshal queryOptions stdin net)"

section \<open>A model of json.Unmarshal for the type Response\<close>

text \<open>
  \<^verbatim>\<open>json.Unmarshal\<close> first checks that the whole input is one valid JSON value
  (\<^verbatim>\<open>checkValid\<close>) and only then stores the value into the \<open>Response\<close>.  The model
  reads the input into tokens, builds the value with a stack machine that accepts
  exactly the JSON grammar, and then stores it as \<^verbatim>\<open>encoding/json\<close> does for a struct
  of two strings and a slice of structs of two strings: members are stored in their
  order, so that of two members with the same key the later one wins; a member whose
  key selects no field is skipped; a type mismatch is recorded and the rest is still
  stored, but the call then returns an error.  The text of an error is not modelled:
  a syntax error and a type mismatch are two fixed error values.
\<close>

subsection \<open>Tokens\<close>

datatype token =
  LBrace | RBrace | LBracket | RBracket | Colon | Comma
  | TString string | TNumber | TTrue | TFalse | TNull

definition isSpace :: "char \<Rightarrow> bool" where
  "isSpace c = (c = CHR '' '' \<or> c = TAB \<or> c = CR \<or> c = LF)"

definition isDigit :: "char \<Rightarrow> bool" where
  "isDigit c = (48 \<le> byte c \<and> byte c \<le> 57)"

text \<open>
  A string literal after its opening quote: the bytes up to the closing quote, as
  they stand, and the input after it.  A control character is refused, and so is a
  backslash that is not followed by one of \<^verbatim>\<open>" \ / b f n r t\<close> or by \<^verbatim>\<open>u\<close> and four
  hexadecimal digits.
\<close>

fun lex_string :: "string \<Rightarrow> string \<Rightarrow> (string \<times> string) option" where
  "lex_string raw [] = None"
| "lex_string raw (c # cs) =
     (if c = CHR 0x22 then Some (raw, cs)
      else if c = CHR 0x5C then
        (case cs of
           [] \<Rightarrow> None
         | e # cs1 \<Rightarrow>
             if e = CHR 0x22 \<or> e = CHR 0x5C \<or> e = CHR ''/'' \<or> e = CHR ''b'' \<or> e = CHR ''f''
                \<or> e = CHR ''n'' \<or> e = CHR ''r'' \<or> e = CHR ''t''
             then lex_string (raw @ [c, e]) cs1
             else if e = CHR ''u'' then
               (if 4 \<le> length cs1 \<and> list_all ishex (take 4 cs1)
                then lex_string (raw @ [c, e] @ take 4 cs1) (drop 4 cs1)
                else None)
             else None)
      else if byte c < 0x20 then None
      else lex_string (raw @ [c]) cs)"

text \<open>A number literal: an optional minus sign, then \<^verbatim>\<open>0\<close> or a digit from 1 to 9
  and more digits, then an optional fraction and an optional exponent, each with at
  least one digit.  The result is the input after the literal.\<close>

definition lex_exponent :: "string \<Rightarrow> string option" where
  "lex_exponent s =
     (case s of
        [] \<Rightarrow> Some s
      | e # t \<Rightarrow>
          if e = CHR ''e'' \<or> e = CHR ''E'' then
            (let t' = (case t of
                         [] \<Rightarrow> t
                       | sg # u \<Rightarrow> if sg = CHR ''+'' \<or> sg = CHR ''-'' then u else t)
             in case t' of
                  [] \<Rightarrow> None
                | d # u \<Rightarrow> if isDigit d then Some (dropWhile isDigit u) else None)
          else Some s)"

definition lex_fraction :: "string \<Rightarrow> string option" where
  "lex_fraction s =
     (case s of
        [] \<Rightarrow> Some s
      | p # t \<Rightarrow>
          if p = CHR ''.'' then
            (case t of
               [] \<Rightarrow> None
             | d # u \<Rightarrow> if isDigit d then lex_exponent (dropWhile isDigit u) else None)
          else lex_exponent s)"

definition lex_number :: "string \<Rightarrow> string option" where
  "lex_number s =
     (let s1 = (case s of [] \<Rightarrow> s | c # cs \<Rightarrow> if c = CHR ''-'' then cs else s)
      in case s1 of
           [] \<Rightarrow> None
         | d # ds \<Rightarrow>
             if \<not> isDigit d then None
             else if d = CHR ''0'' then lex_fraction ds
             else lex_fraction (dropWhile isDigit ds))"

lemma le_dropWhile: "n \<le> length (dropWhile P xs) \<Longrightarrow> n \<le> length xs"
  by (rule le_trans [OF _ length_dropWhile_le])

lemma lex_string_shrinks: "lex_string raw s = Some (r, rest) \<Longrightarrow> length rest < length s"
proof (induction raw s rule: lex_string.induct)
  case (1 raw)
  then show ?case by simp
next
  case (2 raw c cs)
  show ?case
  proof (cases "c = CHR 0x22")
    case True
    with "2.prems" show ?thesis by simp
  next
    case nq: False
    show ?thesis
    proof (cases "c = CHR 0x5C")
      case bs: True
      show ?thesis
      proof (cases cs)
        case Nil
        with "2.prems" nq bs show ?thesis by simp
      next
        case (Cons e cs1)
        show ?thesis
        proof (cases "e = CHR 0x22 \<or> e = CHR 0x5C \<or> e = CHR ''/'' \<or> e = CHR ''b'' \<or> e = CHR ''f''
                \<or> e = CHR ''n'' \<or> e = CHR ''r'' \<or> e = CHR ''t''")
          case True
          with "2.prems" nq bs Cons have "lex_string (raw @ [c, e]) cs1 = Some (r, rest)" by simp
          from "2.IH"(1) [OF nq bs Cons True this] Cons show ?thesis by simp
        next
          case ne: False
          show ?thesis
          proof (cases "e = CHR ''u'' \<and> 4 \<le> length cs1 \<and> list_all ishex (take 4 cs1)")
            case True
            with "2.prems" nq bs Cons ne
            have "lex_string (raw @ [c, e] @ take 4 cs1) (drop 4 cs1) = Some (r, rest)" by simp
            from "2.IH"(2) [OF nq bs Cons ne _ _ this] True Cons show ?thesis by simp
          next
            case False
            with "2.prems" nq bs Cons ne show ?thesis by (simp split: if_splits)
          qed
        qed
      qed
    next
      case nb: False
      with "2.prems" nq have low: "\<not> byte c < 0x20" and "lex_string (raw @ [c]) cs = Some (r, rest)"
        by (simp_all split: if_splits)
      from "2.IH"(3) [OF nq nb low this(2)] show ?thesis by simp
    qed
  qed
qed

lemma lex_exponent_shrinks: "lex_exponent s = Some rest \<Longrightarrow> length rest \<le> length s"
  by (auto simp: lex_exponent_def Let_def le_SucI length_dropWhile_le split: list.splits if_splits)

lemma lex_exponent_dropWhile:
  "lex_exponent (dropWhile P u) = Some rest \<Longrightarrow> length rest \<le> length u"
  using lex_exponent_shrinks le_dropWhile by blast

lemma lex_fraction_shrinks: "lex_fraction s = Some rest \<Longrightarrow> length rest \<le> length s"
proof (cases s)
  case Nil
  then show "lex_fraction s = Some rest \<Longrightarrow> length rest \<le> length s"
    by (simp add: lex_fraction_def)
next
  case (Cons p t)
  assume a: "lex_fraction s = Some rest"
  show "length rest \<le> length s"
  proof (cases "p = CHR ''.''")
    case True
    with a Cons obtain d u where t: "t = d # u" and "lex_exponent (dropWhile isDigit u) = Some rest"
      by (auto simp: lex_fraction_def split: list.splits if_splits)
    from lex_exponent_dropWhile [OF this(2)] t Cons show ?thesis by simp
  next
    case False
    with a Cons have "lex_exponent s = Some rest" by (simp add: lex_fraction_def)
    then show ?thesis by (rule lex_exponent_shrinks)
  qed
qed

lemma lex_fraction_dropWhile:
  "lex_fraction (dropWhile P u) = Some rest \<Longrightarrow> length rest \<le> length u"
  using lex_fraction_shrinks le_dropWhile by blast

lemma lex_number_tail:
  assumes "isDigit d"
    and "(if d = CHR ''0'' then lex_fraction ds else lex_fraction (dropWhile isDigit ds)) = Some rest"
  shows "length rest \<le> length ds"
  using assms lex_fraction_shrinks [of ds rest] lex_fraction_dropWhile [of isDigit ds rest]
  by (simp split: if_splits)

lemma lex_number_shrinks: "lex_number s = Some rest \<Longrightarrow> length rest < length s"
proof -
  assume a: "lex_number s = Some rest"
  show ?thesis
  proof (cases s)
    case Nil
    with a show ?thesis by (simp add: lex_number_def)
  next
    case (Cons c cs)
    show ?thesis
    proof (cases "c = CHR ''-''")
      case True
      with a Cons obtain d ds where cs: "cs = d # ds" and "isDigit d"
        and "(if d = CHR ''0'' then lex_fraction ds else lex_fraction (dropWhile isDigit ds)) = Some rest"
        by (auto simp: lex_number_def split: list.splits if_splits)
      from lex_number_tail [OF this(2,3)] cs Cons show ?thesis by simp
    next
      case False
      with a Cons have "isDigit c"
        and "(if c = CHR ''0'' then lex_fraction cs else lex_fraction (dropWhile isDigit cs)) = Some rest"
        by (auto simp: lex_number_def split: list.splits if_splits)
      from lex_number_tail [OF this] Cons show ?thesis by simp
    qed
  qed
qed

function lex :: "string \<Rightarrow> token list option" where
  "lex [] = Some []"
| "lex (c # cs) =
     (if isSpace c then lex cs
      else if c = CHR ''{'' then map_option ((#) LBrace) (lex cs)
      else if c = CHR ''}'' then map_option ((#) RBrace) (lex cs)
      else if c = CHR ''['' then map_option ((#) LBracket) (lex cs)
      else if c = CHR '']'' then map_option ((#) RBracket) (lex cs)
      else if c = CHR '':'' then map_option ((#) Colon) (lex cs)
      else if c = CHR '','' then map_option ((#) Comma) (lex cs)
      else if c = CHR 0x22 then
        (case lex_string [] cs of
           None \<Rightarrow> None
         | Some (raw, rest) \<Rightarrow> map_option ((#) (TString raw)) (lex rest))
      else if c = CHR ''-'' \<or> isDigit c then
        (case lex_number (c # cs) of
           None \<Rightarrow> None
         | Some rest \<Rightarrow> map_option ((#) TNumber) (lex rest))
      else if c = CHR ''t'' then
        (if take 3 cs = ''rue'' then map_option ((#) TTrue) (lex (drop 3 cs)) else None)
      else if c = CHR ''f'' then
        (if take 4 cs = ''alse'' then map_option ((#) TFalse) (lex (drop 4 cs)) else None)
      else if c = CHR ''n'' then
        (if take 3 cs = ''ull'' then map_option ((#) TNull) (lex (drop 3 cs)) else None)
      else None)"
  by pat_completeness auto
termination
  apply (relation "measure length")
  apply simp_all
  subgoal for c cs x2 x y using lex_string_shrinks [of "[]" cs x y] by simp
  subgoal for c cs x2 using lex_number_shrinks [of "c # cs" x2] by simp
  done

declare lex.simps [simp del]

subsection \<open>Values\<close>

text \<open>A JSON value; a string and the key of a member are kept as they stand in the
  input, between their quotes.\<close>

datatype json =
  JNull | JBool bool | JNumber | JString string
  | JArray "json list" | JObject "(string \<times> json) list"

text \<open>
  The stack machine.  A frame is an array or an object that is still open, with what
  it holds so far (and, for an object, the key that waits for its value).  The states
  are those of the scanner of \<^verbatim>\<open>encoding/json\<close>; \<open>ExpectColon\<close> is its state after a
  key.  At most \<open>maxNestingDepth\<close> frames may be open.
\<close>

datatype frame = ArrayFrame "json list" | ObjectFrame "(string \<times> json) list" "string option"

datatype pstate =
  BeginValue | BeginValueOrEmpty | BeginStringOrEmpty | BeginString
  | ExpectColon | EndValue | EndTop json

definition maxNestingDepth :: nat where
  "maxNestingDepth = 10000"

definition push :: "frame \<Rightarrow> frame list \<Rightarrow> pstate \<Rightarrow> (frame list \<times> pstate) option" where
  "push f st state = (if length (f # st) \<le> maxNestingDepth then Some (f # st, state) else None)"

fun complete :: "json \<Rightarrow> frame list \<Rightarrow> (frame list \<times> pstate) option" where
  "complete v [] = Some ([], EndTop v)"
| "complete v (ArrayFrame es # st) = Some (ArrayFrame (es @ [v]) # st, EndValue)"
| "complete v (ObjectFrame ms (Some k) # st) = Some (ObjectFrame (ms @ [(k, v)]) None # st, EndValue)"
| "complete v (ObjectFrame ms None # st) = None"

fun begin_value :: "token \<Rightarrow> frame list \<Rightarrow> (frame list \<times> pstate) option" where
  "begin_value LBracket st = push (ArrayFrame []) st BeginValueOrEmpty"
| "begin_value LBrace st = push (ObjectFrame [] None) st BeginStringOrEmpty"
| "begin_value (TString raw) st = complete (JString raw) st"
| "begin_value TNumber st = complete JNumber st"
| "begin_value TTrue st = complete (JBool True) st"
| "begin_value TFalse st = complete (JBool False) st"
| "begin_value TNull st = complete JNull st"
| "begin_value RBrace st = None"
| "begin_value RBracket st = None"
| "begin_value Colon st = None"
| "begin_value Comma st = None"

fun begin_string :: "token \<Rightarrow> frame list \<Rightarrow> (frame list \<times> pstate) option" where
  "begin_string (TString raw) (ObjectFrame ms k # st) = Some (ObjectFrame ms (Some raw) # st, ExpectColon)"
| "begin_string tok st = None"

fun end_value :: "token \<Rightarrow> frame list \<Rightarrow> (frame list \<times> pstate) option" where
  "end_value tok [] = None"
| "end_value tok (ArrayFrame es # st) =
     (if tok = Comma then Some (ArrayFrame es # st, BeginValue)
      else if tok = RBracket then complete (JArray es) st
      else None)"
| "end_value tok (ObjectFrame ms k # st) =
     (if tok = Comma then Some (ObjectFrame ms k # st, BeginString)
      else if tok = RBrace then complete (JObject ms) st
      else None)"

fun step :: "token \<Rightarrow> frame list \<times> pstate \<Rightarrow> (frame list \<times> pstate) option" where
  "step tok (st, BeginValue) = begin_value tok st"
| "step tok (st, BeginValueOrEmpty) =
     (if tok = RBracket then (case st of ArrayFrame es # st' \<Rightarrow> complete (JArray es) st' | _ \<Rightarrow> None)
      else begin_value tok st)"
| "step tok (st, BeginStringOrEmpty) =
     (if tok = RBrace then (case st of ObjectFrame ms k # st' \<Rightarrow> complete (JObject ms) st' | _ \<Rightarrow> None)
      else begin_string tok st)"
| "step tok (st, BeginString) = begin_string tok st"
| "step tok (st, ExpectColon) = (if tok = Colon then Some (st, BeginValue) else None)"
| "step tok (st, EndValue) = end_value tok st"
| "step tok (st, EndTop v) = None"

fun run :: "token list \<Rightarrow> frame list \<times> pstate \<Rightarrow> (frame list \<times> pstate) option" where
  "run [] s = Some s"
| "run (tok # toks) s = (case step tok s of None \<Rightarrow> None | Some s' \<Rightarrow> run toks s')"

definition parse_json :: "string \<Rightarrow> json option" where
  "parse_json data =
     (case lex data of
        None \<Rightarrow> None
      | Some toks \<Rightarrow>
          (case run toks ([], BeginValue) of
             Some ([], EndTop v) \<Rightarrow> Some v
           | _ \<Rightarrow> None))"

subsection \<open>Unquoting a string literal\<close>

text \<open>\<^verbatim>\<open>getu4\<close>: the number written by \<^verbatim>\<open>\uXXXX\<close> at the head of a string, if there is
  one.\<close>

definition getu4 :: "string \<Rightarrow> nat option" where
  "getu4 s =
     (if 6 \<le> length s \<and> s ! 0 = CHR 0x5C \<and> s ! 1 = CHR ''u'' \<and> list_all ishex (take 4 (drop 2 s))
      then Some (((unhex (s ! 2) * 16 + unhex (s ! 3)) * 16 + unhex (s ! 4)) * 16 + unhex (s ! 5))
      else None)"

definition IsSurrogate :: "nat \<Rightarrow> bool" where
  "IsSurrogate r = (0xD800 \<le> r \<and> r < 0xE000)"

text \<open>\<^verbatim>\<open>utf16.DecodeRune\<close>: the code point of a surrogate pair, or \<open>RuneError\<close> when
  the two halves are not a pair.\<close>

definition utf16_DecodeRune :: "nat \<Rightarrow> nat \<Rightarrow> nat" where
  "utf16_DecodeRune r1 r2 =
     (if 0xD800 \<le> r1 \<and> r1 < 0xDC00 \<and> 0xDC00 \<le> r2 \<and> r2 < 0xE000
      then (r1 - 0xD800) * 1024 + (r2 - 0xDC00) + 0x10000
      else RuneError)"

text \<open>
  \<^verbatim>\<open>unquoteBytes\<close>, on the bytes between the quotes: an escape is replaced by what it
  stands for (a \<^verbatim>\<open>\u\<close> escape by the UTF-8 bytes of its code point, two escapes that
  form a surrogate pair by one code point, a lone surrogate by \<open>RuneError\<close>), and bytes
  that are not well-formed UTF-8 are replaced by the bytes of \<open>RuneError\<close>.  The result
  is \<open>None\<close> for a literal that is not well formed.
\<close>

function unquote :: "string \<Rightarrow> string option" where
  "unquote s =
     (case s of
        [] \<Rightarrow> Some []
      | c # cs \<Rightarrow>
          if c = CHR 0x5C then
            (case cs of
               [] \<Rightarrow> None
             | e # cs1 \<Rightarrow>
                 if e = CHR 0x22 \<or> e = CHR 0x5C \<or> e = CHR ''/'' \<or> e = CHR 0x27
                   then map_option ((#) e) (unquote cs1)
                 else if e = CHR ''b'' then map_option ((#) (CHR 0x08)) (unquote cs1)
                 else if e = CHR ''f'' then map_option ((#) (CHR 0x0C)) (unquote cs1)
                 else if e = CHR ''n'' then map_option ((#) LF) (unquote cs1)
                 else if e = CHR ''r'' then map_option ((#) CR) (unquote cs1)
                 else if e = CHR ''t'' then map_option ((#) TAB) (unquote cs1)
                 else if e = CHR ''u'' then
                   (case getu4 s of
                      None \<Rightarrow> None
                    | Some rr \<Rightarrow>
                        if IsSurrogate rr then
                          (let dec = (case getu4 (drop 6 s) of
                                        None \<Rightarrow> RuneError
                                      | Some rr1 \<Rightarrow> utf16_DecodeRune rr rr1)
                           in if dec \<noteq> RuneError
                              then map_option ((@) (EncodeRune dec)) (unquote (drop 12 s))
                              else map_option ((@) (EncodeRune RuneError)) (unquote (drop 6 s)))
                        else map_option ((@) (EncodeRune rr)) (unquote (drop 6 s)))
                 else None)
          else if c = CHR 0x22 \<or> byte c < 0x20 then None
          else if byte c < 0x80 then map_option ((#) c) (unquote cs)
          else map_option ((@) (EncodeRune (fst (DecodeRune s))))
                 (unquote (drop (snd (DecodeRune s)) s)))"
  by pat_completeness auto
termination
  apply (relation "measure length")
  apply simp_all
  subgoal for s c cs using DecodeRune_size [of s] by simp
  done

declare unquote.simps [simp del]

subsection \<open>Matching a key with a field\<close>

text \<open>
  A key of an object selects the field whose name equals it, or else the field whose
  name equals it under \<^verbatim>\<open>foldName\<close>, which maps the ASCII letters to upper case and
  any other code point to the least code point of its simple case folding orbit.
  The names of the fields are ASCII; the only code points beyond ASCII whose orbit
  holds an ASCII letter are \<^verbatim>\<open>U+017F\<close> (for \<^verbatim>\<open>S\<close>) and \<^verbatim>\<open>U+212A\<close> (for \<^verbatim>\<open>K\<close>).
  \<open>fold_matches name key\<close>, for an ASCII \<open>name\<close>, says that the key selects the field.
\<close>

definition upper :: "char \<Rightarrow> char" where
  "upper c = (if 97 \<le> byte c \<and> byte c \<le> 122 then char_of (byte c - 32) else c)"

function fold_matches :: "string \<Rightarrow> string \<Rightarrow> bool" where
  "fold_matches name key =
     (case key of
        [] \<Rightarrow> name = []
      | c # cs \<Rightarrow>
          (case name of
             [] \<Rightarrow> False
           | n # ns \<Rightarrow>
               if byte c < 0x80 then upper n = upper c \<and> fold_matches ns cs
               else if fst (DecodeRune key) = 0x17F
                 then upper n = CHR ''S'' \<and> fold_matches ns (drop (snd (DecodeRune key)) key)
               else if fst (DecodeRune key) = 0x212A
                 then upper n = CHR ''K'' \<and> fold_matches ns (drop (snd (DecodeRune key)) key)
               else False))"
  by pat_completeness auto
termination
  apply (relation "measure (\<lambda>(name, key). length key)")
  apply simp_all
  subgoal for name key c cs using DecodeRune_size [of key] by simp
  subgoal for name key c cs using DecodeRune_size [of key] by simp
  done

declare fold_matches.simps [simp del]

subsection \<open>Storing a value\<close>

text \<open>
  Storing into a string: a JSON string is unquoted and stored, \<^verbatim>\<open>null\<close> leaves the
  field as it is, any other value is a type mismatch (recorded, and the field is left
  as it is).  The second component of a result says that a mismatch was recorded.
\<close>

fun store_string :: "json \<Rightarrow> string \<Rightarrow> string \<times> bool" where
  "store_string (JString raw) cur =
     (case unquote raw of Some s \<Rightarrow> (s, False) | None \<Rightarrow> (cur, True))"
| "store_string JNull cur = (cur, False)"
| "store_string v cur = (cur, True)"

text \<open>Storing the members of an object into a \<open>RelatedTopic\<close>, in their order; a key
  that selects no field is skipped with its value.\<close>

fun store_topic_members :: "(string \<times> json) list \<Rightarrow> RelatedTopic \<times> bool \<Rightarrow> RelatedTopic \<times> bool" where
  "store_topic_members [] acc = acc"
| "store_topic_members ((k, v) # ms) (t, bad) =
     (case unquote k of
        None \<Rightarrow> store_topic_members ms (t, True)
      | Some key \<Rightarrow>
          if fold_matches ''FirstURL'' key then
            (case store_string v (FirstURL t) of
               (s, b) \<Rightarrow> store_topic_members ms (t\<lparr>FirstURL := s\<rparr>, bad \<or> b))
          else if fold_matches ''Text'' key then
            (case store_string v (Text t) of
               (s, b) \<Rightarrow> store_topic_members ms (t\<lparr>Text := s\<rparr>, bad \<or> b))
          else store_topic_members ms (t, bad))"

fun store_topic :: "json \<Rightarrow> RelatedTopic \<Rightarrow> RelatedTopic \<times> bool" where
  "store_topic (JObject ms) cur = store_topic_members ms (cur, False)"
| "store_topic JNull cur = (cur, False)"
| "store_topic v cur = (cur, True)"

text \<open>
  Storing the elements of an array into a slice: element \<open>i\<close> is stored into what
  the backing array of the slice holds at index \<open>i\<close>, or into a zero value beyond it.
  The second argument is the backing array from the current index on.
\<close>

fun store_elements :: "json list \<Rightarrow> RelatedTopic list \<Rightarrow> RelatedTopic list \<times> bool" where
  "store_elements [] backing = ([], False)"
| "store_elements (e # es) backing =
     (case store_topic e (case backing of [] \<Rightarrow> \<lparr>FirstURL = [], Text = []\<rparr> | b # bs \<Rightarrow> b) of
        (t, b1) \<Rightarrow>
          (case store_elements es (tl backing) of
             (ts, b2) \<Rightarrow> (t # ts, b1 \<or> b2)))"

text \<open>
  Storing into the slice \<open>RelatedTopics\<close>.  The state is the slice and its backing
  array; an array with no element and \<^verbatim>\<open>null\<close> give a slice with a new, empty
  backing array.
\<close>

fun store_slice :: "json \<Rightarrow> RelatedTopic list \<times> RelatedTopic list \<Rightarrow> (RelatedTopic list \<times> RelatedTopic list) \<times> bool" where
  "store_slice (JArray es) (slice, backing) =
     (if es = [] then (([], []), False)
      else (case store_elements es backing of
              (ts, b) \<Rightarrow> ((ts, ts @ drop (length es) backing), b)))"
| "store_slice JNull (slice, backing) = (([], []), False)"
| "store_slice v (slice, backing) = ((slice, backing), True)"

text \<open>Storing the members of the top-level object into the \<open>Response\<close>; the second
  component of the state is the backing array of \<open>RelatedTopics\<close>.\<close>

fun store_response_members :: "(string \<times> json) list \<Rightarrow> Response \<times> RelatedTopic list \<times> bool \<Rightarrow> Response \<times> RelatedTopic list \<times> bool" where
  "store_response_members [] acc = acc"
| "store_response_members ((k, v) # ms) (r, backing, bad) =
     (case unquote k of
        None \<Rightarrow> store_response_members ms (r, backing, True)
      | Some key \<Rightarrow>
          if fold_matches ''AbstractText'' key then
            (case store_string v (AbstractText r) of
               (s, b) \<Rightarrow> store_response_members ms (r\<lparr>AbstractText := s\<rparr>, backing, bad \<or> b))
          else if fold_matches ''AbstractURL'' key then
            (case store_string v (AbstractURL r) of
               (s, b) \<Rightarrow> store_response_members ms (r\<lparr>AbstractURL := s\<rparr>, backing, bad \<or> b))
          else if fold_matches ''RelatedTopics'' key then
            (case store_slice v (RelatedTopics r, backing) of
               ((slice, backing'), b) \<Rightarrow>
                 store_response_members ms (r\<lparr>RelatedTopics := slice\<rparr>, backing', bad \<or> b))
          else store_response_members ms (r, backing, bad))"

fun store_response :: "json \<Rightarrow> Response \<Rightarrow> Response \<times> bool" where
  "store_response (JObject ms) cur =
     (case store_response_members ms (cur, RelatedTopics cur, False) of
        (r, backing, bad) \<Rightarrow> (r, bad))"
| "store_response JNull cur = (cur, False)"
| "store_response v cur = (cur, True)"

subsection \<open>json.Unmarshal\<close>

definition json_Unmarshal :: "string \<Rightarrow> Response \<Rightarrow> Response \<times> error option" where
  "json_Unmarshal data v =
     (case parse_json data of
        None \<Rightarrow> (v, Some (Failure ''json: invalid syntax''))
      | Some j \<Rightarrow>
          (case store_response j v of
             (v', bad) \<Rightarrow>
               (v', if bad then Some (Failure ''json: cannot unmarshal value of this type'') else None)))"

section \<open>Notions of the specification\<close>

text \<open>
  The text of a body with its line terminators removed, in the words of the
  specification: every newline is removed, and with it the carriage return that
  stands directly before it; a carriage return that ends the body is removed as
  well (the last line needs no newline).  Any other carriage return is part of its
  line and stays.
\<close>

fun strip_line_terminators :: "string \<Rightarrow> string" where
  "strip_line_terminators [] = []"
| "strip_line_terminators (c # cs) =
     (if c = LF then strip_line_terminators cs
      else if c = CR \<and> (cs = [] \<or> hd cs = LF) then strip_line_terminators cs
      else c # strip_line_terminators cs)"

text \<open>
  A text has a line that reaches the token limit of the scanner when some line of it
  has \<open>MaxScanTokenSize\<close> bytes or more before its newline, or when its last line,
  which has no newline, has more than \<open>MaxScanTokenSize\<close> bytes, or exactly as many
  and the end of the stream does not come with its last bytes (\<open>withData\<close> is false).
  The second argument counts the bytes of the current line read so far.
\<close>

fun has_long_line :: "bool \<Rightarrow> nat \<Rightarrow> string \<Rightarrow> bool" where
  "has_long_line withData n [] =
     (if withData then MaxScanTokenSize < n else MaxScanTokenSize \<le> n)"
| "has_long_line withData n (c # cs) =
     (if c = LF then MaxScanTokenSize \<le> n \<or> has_long_line withData 0 cs
      else has_long_line withData (Suc n) cs)"

text \<open>
  A line that is empty or consists only of white space: the UTF-8 text of a sequence
  of code points, each of them white space as defined by Unicode (\<open>IsSpace\<close>).  The
  newline that ends an input line is such a code point.
\<close>

inductive white_space_only :: "string \<Rightarrow> bool" where
  empty: "white_space_only []"
| space: "IsSpace r \<Longrightarrow> white_space_only s \<Longrightarrow> white_space_only (EncodeRune r @ s)"

section \<open>Notions for statements about runs\<close>

text \<open>The URLs requested in a sequence of events, in order.\<close>

fun requests :: "event list \<Rightarrow> string list" where
  "requests [] = []"
| "requests (HttpGet u # evs) = u # requests evs"
| "requests (e # evs) = requests evs"

text \<open>A server that answers every request with the same response.\<close>

definition serve :: "http_Response \<Rightarrow> string \<Rightarrow> error + http_Response" where
  "serve response url = Inr response"

section \<open>Properties of getAPIURL\<close>

lemma unhex_upperhex: "n < 16 \<Longrightarrow> unhex (upperhex n) = n"
proof -
  have "\<forall>n<16. unhex (upperhex n) = n"
    by (simp add: upperhex_def unhex_def byte_def All_less_Suc numeral_eq_Suc del: upt_Suc)
  then show "n < 16 \<Longrightarrow> unhex (upperhex n) = n" by blast
qed

lemma ishex_upperhex: "n < 16 \<Longrightarrow> ishex (upperhex n)"
proof -
  have "\<forall>n<16. ishex (upperhex n)"
    by (simp add: upperhex_def ishex_def byte_def All_less_Suc numeral_eq_Suc del: upt_Suc)
  then show "n < 16 \<Longrightarrow> ishex (upperhex n)" by blast
qed

lemma upperhex_not_amp: "n < 16 \<Longrightarrow> upperhex n \<noteq> CHR ''&''"
proof -
  have "\<forall>n<16. upperhex n \<noteq> CHR ''&''"
    by (simp add: upperhex_def All_less_Suc numeral_eq_Suc del: upt_Suc)
  then show "n < 16 \<Longrightarrow> upperhex n \<noteq> CHR ''&''" by blast
qed

lemma byte_hex_split: "char_of (unhex (upperhex (byte c div 16)) * 16 + unhex (upperhex (byte c mod 16))) = c"
proof -
  have "byte c < 256" by (simp add: byte_def)
  then have hi: "byte c div 16 < 16" by simp
  have lo: "byte c mod 16 < 16" by simp
  have "char_of (byte c div 16 * 16 + byte c mod 16) = c"
    by (simp add: byte_def)
  then show ?thesis by (simp add: unhex_upperhex [OF hi] unhex_upperhex [OF lo])
qed

lemma keep_not_special:
  assumes "\<not> shouldEscape c"
  shows "c \<noteq> CHR ''%''" and "c \<noteq> CHR ''+''" and "c \<noteq> CHR ''&''"
  using assms by (auto simp: shouldEscape_def isAlnum_def byte_def split: if_splits)

lemma unescape_escape: "unescape (escape s) = Some s"
proof (induction s)
  case Nil
  show ?case by simp
next
  case (Cons c s)
  have hi: "byte c div 16 < 16"
  proof -
    have "byte c < 256" by (simp add: byte_def)
    then show ?thesis by simp
  qed
  have lo: "byte c mod 16 < 16" by simp
  show ?case
  proof (cases "c = CHR '' ''")
    case True
    with Cons show ?thesis by simp
  next
    case notsp: False
    show ?thesis
    proof (cases "shouldEscape c")
      case True
      with notsp Cons show ?thesis
        by (simp add: ishex_upperhex [OF hi] ishex_upperhex [OF lo] byte_hex_split)
    next
      case False
      with notsp Cons keep_not_special [OF False] show ?thesis by simp
    qed
  qed
qed

lemma escape_no_amp: "CHR ''&'' \<notin> set (escape s)"
proof (induction s)
  case Nil
  show ?case by simp
next
  case (Cons c s)
  have hi: "byte c div 16 < 16"
  proof -
    have "byte c < 256" by (simp add: byte_def)
    then show ?thesis by simp
  qed
  have lo: "byte c mod 16 < 16" by simp
  from Cons upperhex_not_amp [OF hi] upperhex_not_amp [OF lo] keep_not_special(3) [of c]
  show ?case by auto
qed

lemma q_component_getAPIURL: "q_component (getAPIURL q opts) = QueryEscape q"
proof -
  have "takeWhile (\<lambda>c. c \<noteq> CHR ''&'') (escape q @ CHR ''&'' # r) = escape q" for r
    using escape_no_amp [of q] by (auto simp: takeWhile_tail)
  then show ?thesis
    by (simp add: q_component_def getAPIURL_def QueryEscape_def)
qed

lemma QueryEscape_example:
  "QueryEscape ([CHR ''c'', CHR ''a'', CHR ''f'', CHR 0xC3, CHR 0xA9, CHR '' '', CHR ''?'']) = ''caf%C3%A9+%3F''"
  by (simp add: QueryEscape_def shouldEscape_def isAlnum_def byte_def upperhex_def)

text \<open>
  Claim C1.  For every query string (every sequence of bytes, so in particular the
  non-empty ones with spaces, punctuation or UTF-8 encoded Unicode), the \<open>q\<close>
  component of the URL returned by \<open>getAPIURL\<close> decodes, by the query-component
  unescaping of \<^verbatim>\<open>net/url\<close>, to the original query string.
\<close>

theorem getAPIURL_q_roundtrip:
  "QueryUnescape (q_component (getAPIURL q opts)) = Some q"
  by (simp add: q_component_getAPIURL QueryUnescape_def QueryEscape_def unescape_escape)

lemma Sprintf_d_flag: "boolean_like i \<Longrightarrow> Sprintf_d i = [flag_digit i]"
  by (auto simp: boolean_like_def Sprintf_d_def flag_digit_def)

text \<open>
  Claim C9.  For every query string and every options value whose four flags are
  boolean-like (0 or 1), \<open>getAPIURL\<close> returns exactly
  \<^verbatim>\<open>https://api.duckduckgo.com/?q=<encoded>&format=<fmt>&pretty=<0|1>&no_redirect=<0|1>&no_html=<0|1>&skip_disambig=<0|1>&t=duckduckgo-answers\<close>,
  where \<^verbatim>\<open><encoded>\<close> is the escaped query, \<^verbatim>\<open><fmt>\<close> the format field and the
  client identifier the constant \<^verbatim>\<open>duckduckgo-answers\<close>.  The result is a function of
  the query and the options alone.
\<close>

theorem getAPIURL_form:
  assumes "boolean_like (Pretty opts)" and "boolean_like (NoRedirect opts)"
    and "boolean_like (NoHTML opts)" and "boolean_like (SkipDisambig opts)"
  shows "getAPIURL q opts =
     ''https://api.duckduckgo.com/?q='' @ QueryEscape q
     @ ''&format='' @ Format opts
     @ ''&pretty='' @ [flag_digit (Pretty opts)]
     @ ''&no_redirect='' @ [flag_digit (NoRedirect opts)]
     @ ''&no_html='' @ [flag_digit (NoHTML opts)]
     @ ''&skip_disambig='' @ [flag_digit (SkipDisambig opts)]
     @ ''&t=duckduckgo-answers''"
  using assms by (simp add: getAPIURL_def Sprintf_d_flag)

theorem getAPIURL_form_witness:
  "boolean_like (Pretty queryOptions) \<and> boolean_like (NoRedirect queryOptions)
   \<and> boolean_like (NoHTML queryOptions) \<and> boolean_like (SkipDisambig queryOptions)
   \<and> getAPIURL ''a b&c'' queryOptions =
     ''https://api.duckduckgo.com/?q=a+b%26c&format=json&pretty=1&no_redirect=1&no_html=1&skip_disambig=1&t=duckduckgo-answers''"
proof -
  have b: "boolean_like (Pretty queryOptions)" "boolean_like (NoRedirect queryOptions)"
    "boolean_like (NoHTML queryOptions)" "boolean_like (SkipDisambig queryOptions)"
    by (simp_all add: queryOptions_def boolean_like_def)
  have e: "QueryEscape ''a b&c'' = ''a+b%26c''"
    by (simp add: QueryEscape_def shouldEscape_def isAlnum_def byte_def upperhex_def)
  show ?thesis
    using getAPIURL_form [OF b, of "''a b&c''"] b
    by (simp add: e queryOptions_def flag_digit_def)
qed

section \<open>Properties of printResponse\<close>

lemma map_printTopic:
  "map (printTopic input) [0..<length (RelatedTopics input)] =
   map (\<lambda>t. [Println [TerminalColors ''Blue'', TAB # FirstURL t],
               Println [TerminalColors ''White'', TAB # Text t @ [LF]]]) (RelatedTopics input)"
  by (rule nth_equalityI) (simp_all add: printTopic_def)

lemma info_header_not_topic:
  "Println [TerminalColors ''Green'', ''More info:''] \<notin> set (printTopic input key)"
  by (simp add: printTopic_def Println_def TerminalColors_def)

lemma info_header_not_topics:
  "Println [TerminalColors ''Green'', ''More info:'']
     \<notin> set (concat (map (printTopic input) keys))"
  using info_header_not_topic by auto

text \<open>
  Claim C7.  Among the writes of \<open>printResponse\<close>, the header of the Info section
  (the call \<^verbatim>\<open>fmt.Println(TerminalColors["Green"], "More info:")\<close>) occurs if and only
  if \<open>AbstractURL\<close> is not the empty string; when it is not empty, the header is
  directly followed by the line that holds the abstract URL.
\<close>

theorem printResponse_info_iff:
  "(Println [TerminalColors ''Green'', ''More info:''] \<in> set (printResponse input))
     = (AbstractURL input \<noteq> [])
   \<and> (AbstractURL input = []
      \<or> (\<exists>pre post. printResponse input =
            pre @ [Println [TerminalColors ''Green'', ''More info:''],
                   Println [TerminalColors ''Blue'', TAB # AbstractURL input @ [LF]]] @ post))"
proof (cases "AbstractURL input = []")
  case True
  then show ?thesis
    using info_header_not_topics [of input "[0..<length (RelatedTopics input)]"]
    by (simp add: printResponse_def Println_def Print_def TerminalColors_def)
next
  case False
  have "\<exists>pre post. printResponse input =
          pre @ [Println [TerminalColors ''Green'', ''More info:''],
                 Println [TerminalColors ''Blue'', TAB # AbstractURL input @ [LF]]] @ post"
    using False
    by (intro exI [of _ "[Stdout ([LF] @ '' '' @ AbstractText input @ '' '' @ [LF] @ '' '' @ [LF])]"]
              exI [of _ "[Println [TerminalColors ''Green'', ''Related topics: '']]
                 @ concat (map (printTopic input) [0..<length (RelatedTopics input)])
                 @ [Print (TerminalColors ''Reset'')]"])
       (simp add: printResponse_def)
  moreover have "Println [TerminalColors ''Green'', ''More info:''] \<in> set (printResponse input)"
    using False by (simp add: printResponse_def)
  ultimately show ?thesis using False by blast
qed

text \<open>
  Claim C8.  For every response, \<open>printResponse\<close> writes the header
  \<^verbatim>\<open>Related topics: \<close>, then for each related topic, in the order of the slice, one
  line with its URL and one line with its text, and last of all the reset code:
  nothing else follows the header.  With no topics the header is followed by the reset
  code alone.
\<close>

theorem printResponse_related_topics:
  "(\<exists>pre. printResponse input =
      pre @ [Println [TerminalColors ''Green'', ''Related topics: '']]
      @ concat (map (\<lambda>t. [Println [TerminalColors ''Blue'', TAB # FirstURL t],
                          Println [TerminalColors ''White'', TAB # Text t @ [LF]]])
                 (RelatedTopics input))
      @ [Stdout (ESC # ''[0m'')])
   \<and> last (printResponse input) = Stdout (ESC # ''[0m'')
   \<and> length (concat (map (\<lambda>t. [Println [TerminalColors ''Blue'', TAB # FirstURL t],
                          Println [TerminalColors ''White'', TAB # Text t @ [LF]]])
                 (RelatedTopics input))) = 2 * length (RelatedTopics input)"
proof -
  have reset: "Print (TerminalColors ''Reset'') = Stdout (ESC # ''[0m'')"
    by (simp add: Print_def TerminalColors_def)
  have "printResponse input =
      ([Stdout ([LF] @ '' '' @ AbstractText input @ '' '' @ [LF] @ '' '' @ [LF])]
       @ (if AbstractURL input \<noteq> []
          then [Println [TerminalColors ''Green'', ''More info:''],
                Println [TerminalColors ''Blue'', TAB # AbstractURL input @ [LF]]]
          else []))
      @ [Println [TerminalColors ''Green'', ''Related topics: '']]
      @ concat (map (\<lambda>t. [Println [TerminalColors ''Blue'', TAB # FirstURL t],
                          Println [TerminalColors ''White'', TAB # Text t @ [LF]]])
                 (RelatedTopics input))
      @ [Stdout (ESC # ''[0m'')]"
    unfolding printResponse_def map_printTopic reset by simp
  then have first: "\<exists>pre. printResponse input =
      pre @ [Println [TerminalColors ''Green'', ''Related topics: '']]
      @ concat (map (\<lambda>t. [Println [TerminalColors ''Blue'', TAB # FirstURL t],
                          Println [TerminalColors ''White'', TAB # Text t @ [LF]]])
                 (RelatedTopics input))
      @ [Stdout (ESC # ''[0m'')]"
    by blast
  have lst: "last (printResponse input) = Stdout (ESC # ''[0m'')"
    unfolding printResponse_def reset by simp
  have len: "length (concat (map (\<lambda>t. [Println [TerminalColors ''Blue'', TAB # FirstURL t],
                          Println [TerminalColors ''White'', TAB # Text t @ [LF]]]) ts)) = 2 * length ts"
    for ts :: "RelatedTopic list"
    by (induction ts) simp_all
  from first lst len show ?thesis by blast
qed

section \<open>Properties of responseToString\<close>

lemma strip_line: 
  "LF \<notin> set l \<Longrightarrow> strip_line_terminators (l @ LF # rest) = dropCR l @ strip_line_terminators rest"
proof (induction l)
  case Nil
  show ?case by (simp add: dropCR_def)
next
  case (Cons c l)
  then have c: "c \<noteq> LF" and l: "LF \<notin> set l" by auto
  show ?case
  proof (cases "l = []")
    case True
    with c show ?thesis by (simp add: dropCR_def)
  next
    case False
    then have "hd (l @ LF # rest) \<noteq> LF" using l by (cases l) auto
    moreover have "dropCR (c # l) = c # dropCR l" using False by (simp add: dropCR_def)
    ultimately show ?thesis using Cons.IH [OF l] c False by simp
  qed
qed

lemma strip_last_line:
  "LF \<notin> set l \<Longrightarrow> strip_line_terminators l = dropCR l"
proof (induction l)
  case Nil
  show ?case by (simp add: dropCR_def)
next
  case (Cons c l)
  then have c: "c \<noteq> LF" and l: "LF \<notin> set l" by auto
  show ?case
  proof (cases "l = []")
    case True
    with c show ?thesis by (simp add: dropCR_def)
  next
    case False
    then have "hd l \<noteq> LF" using l by (cases l) auto
    moreover have "dropCR (c # l) = c # dropCR l" using False by (simp add: dropCR_def)
    ultimately show ?thesis using Cons.IH [OF l] c False by simp
  qed
qed

lemma strip_no_LF: "LF \<notin> set (strip_line_terminators s)"
  by (induction s) auto

lemma Scan_Token:
  assumes "Scan data err withData = Token token rest"
  shows "strip_line_terminators data = token @ strip_line_terminators rest"
proof (cases "LF \<in> set data")
  case True
  then obtain l r where d: "data = l @ LF # r" and l: "LF \<notin> set l"
    by (meson split_list_first)
  have tw: "takeWhile (\<lambda>c. c \<noteq> LF) data = l"
    using l by (auto simp: d takeWhile_tail)
  from assms True have "token = dropCR (take (length l) data)"
    and "rest = drop (length l + 1) data"
    by (auto simp: Scan_def ScanLines_def Let_def tw split: if_splits)
  then have "token = dropCR l" and "rest = r" by (simp_all add: d)
  then show ?thesis using strip_line [OF l] d by simp
next
  case False
  from assms False have "token = dropCR data" and "rest = []"
    by (auto simp: Scan_def ScanLines_def Let_def split: if_splits)
  then show ?thesis using strip_last_line [OF False] by simp
qed

lemma Scan_Stop:
  assumes "Scan data err withData = Stop e"
  shows "e = Some ErrTooLong \<or> (data = [] \<and> e = err)"
  using assms by (auto simp: Scan_def ScanLines_def Let_def split: if_splits)

lemma scan_loop_result:
  "scan_loop acc data err withData = (acc', e) \<Longrightarrow>
     e = Some ErrTooLong \<or> (e = err \<and> concat acc' = concat acc @ strip_line_terminators data)"
proof (induction acc data err withData arbitrary: acc' e rule: scan_loop.induct)
  case (1 stringResponse data err withData)
  show ?case
  proof (cases "Scan data err withData")
    case (Token token rest)
    with "1.prems" have "scan_loop (stringResponse @ [token]) rest err withData = (acc', e)"
      by (simp add: scan_loop.simps [of stringResponse data err withData])
    from "1.IH" [OF Token this] Scan_Token [OF Token] show ?thesis by auto
  next
    case (Stop e')
    with "1.prems" have "acc' = stringResponse" and "e = e'"
      by (simp_all add: scan_loop.simps [of stringResponse data err withData])
    with Scan_Stop [OF Stop] show ?thesis by auto
  qed
qed

lemma Err_None: "Err e = None \<Longrightarrow> e \<noteq> Some ErrTooLong"
  by (auto simp: Err_def split: if_splits)

lemma responseToString_Inr:
  assumes "responseToString response = (evs, Inr s)"
  shows "s = strip_line_terminators (Body response)" and "evs = [BodyClose]"
proof -
  obtain acc' e where sl:
    "scan_loop [[]] (Body response) (BodyErr response) (EndWithData response) = (acc', e)"
    by (cases "scan_loop [[]] (Body response) (BodyErr response) (EndWithData response)")
  with assms have e: "Err e = None" and s: "s = concat acc'" and ev: "evs = [BodyClose]"
    by (auto simp: responseToString_def split: option.splits)
  from scan_loop_result [OF sl] Err_None [OF e]
  show "s = strip_line_terminators (Body response)"
    by (simp add: s)
  show "evs = [BodyClose]" by (rule ev)
qed

lemma responseToString_Inl:
  assumes "responseToString response = (evs, Inl err)"
  shows "evs = []"
  using assms by (auto simp: responseToString_def split: option.splits prod.splits)

lemma has_long_line_last:
  "LF \<notin> set l \<Longrightarrow>
     has_long_line withData n l =
       (if withData then MaxScanTokenSize < n + length l else MaxScanTokenSize \<le> n + length l)"
  by (induction l arbitrary: n) auto

lemma has_long_line_line:
  "LF \<notin> set l \<Longrightarrow>
     has_long_line withData n (l @ LF # r) =
       (MaxScanTokenSize \<le> n + length l \<or> has_long_line withData 0 r)"
  by (induction l arbitrary: n) auto

lemma Scan_Token_long:
  assumes "Scan data err withData = Token token rest"
  shows "has_long_line withData 0 data = has_long_line withData 0 rest"
proof (cases "LF \<in> set data")
  case True
  then obtain l r where d: "data = l @ LF # r" and l: "LF \<notin> set l"
    by (meson split_list_first)
  have tw: "takeWhile (\<lambda>c. c \<noteq> LF) data = l"
    using l by (auto simp: d takeWhile_tail)
  from assms True have short: "\<not> MaxScanTokenSize \<le> length l"
    and "rest = drop (length l + 1) data"
    by (auto simp: Scan_def ScanLines_def Let_def tw split: if_splits)
  then have "rest = r" by (simp add: d)
  with has_long_line_line [OF l, of withData 0 r] short d show ?thesis by simp
next
  case False
  then have tw: "takeWhile (\<lambda>c. c \<noteq> LF) data = data"
    by (auto simp: takeWhile_eq_all_conv)
  from assms False have short: "\<not> has_long_line withData 0 data" and "rest = []"
    using has_long_line_last [OF False, of withData 0]
    by (auto simp: Scan_def ScanLines_def Let_def tw split: if_splits)
  then show ?thesis by (simp add: MaxScanTokenSize_def)
qed

lemma Scan_Stop_long:
  assumes "Scan data err withData = Stop e"
  shows "e = (if has_long_line withData 0 data then Some ErrTooLong else err)"
proof (cases "LF \<in> set data")
  case True
  then obtain l r where d: "data = l @ LF # r" and l: "LF \<notin> set l"
    by (meson split_list_first)
  have tw: "takeWhile (\<lambda>c. c \<noteq> LF) data = l"
    using l by (auto simp: d takeWhile_tail)
  from assms True have "MaxScanTokenSize \<le> length l" and "e = Some ErrTooLong"
    by (auto simp: Scan_def ScanLines_def Let_def tw split: if_splits)
  with has_long_line_line [OF l, of withData 0 r] d show ?thesis by simp
next
  case False
  then have tw: "takeWhile (\<lambda>c. c \<noteq> LF) data = data"
    by (auto simp: takeWhile_eq_all_conv)
  from assms False has_long_line_last [OF False, of withData 0] show ?thesis
    by (auto simp: Scan_def ScanLines_def Let_def tw MaxScanTokenSize_def split: if_splits)
qed

lemma scan_loop_error:
  "snd (scan_loop acc data err withData) =
     (if has_long_line withData 0 data then Some ErrTooLong else err)"
proof (induction acc data err withData rule: scan_loop.induct)
  case (1 stringResponse data err withData)
  show ?case
  proof (cases "Scan data err withData")
    case (Token token rest)
    from "1.IH" [OF Token] Scan_Token_long [OF Token] Token show ?thesis
      by (simp add: scan_loop.simps [of stringResponse data err withData])
  next
    case (Stop e)
    from Scan_Stop_long [OF Stop] Stop show ?thesis
      by (simp add: scan_loop.simps [of stringResponse data err withData])
  qed
qed

lemma short_no_long_line:
  "n + length data < MaxScanTokenSize \<Longrightarrow> \<not> has_long_line withData n data"
  by (induction data arbitrary: n) (auto simp: MaxScanTokenSize_def)

lemma long_line_replicate:
  "c \<noteq> LF \<Longrightarrow> has_long_line withData 0 (replicate n c @ [LF]) = (MaxScanTokenSize \<le> n)"
  using has_long_line_line [of "replicate n c" withData 0 "[]"]
  by (simp add: MaxScanTokenSize_def)

lemma strip_plain: "LF \<notin> set s \<Longrightarrow> CR \<notin> set s \<Longrightarrow> strip_line_terminators s = s"
  by (induction s) auto

lemma responseToString_short:
  assumes "BodyErr response = None" and "length (Body response) < MaxScanTokenSize"
  shows "responseToString response = ([BodyClose], Inr (strip_line_terminators (Body response)))"
proof -
  obtain acc' e where sl:
    "scan_loop [[]] (Body response) (BodyErr response) (EndWithData response) = (acc', e)"
    by (cases "scan_loop [[]] (Body response) (BodyErr response) (EndWithData response)")
  from scan_loop_error [of "[[]]" "Body response" "BodyErr response" "EndWithData response"] sl
    short_no_long_line [of 0 "Body response" "EndWithData response"] assms
  have e: "e = None" by simp
  then have "responseToString response = ([BodyClose], Inr (concat acc'))"
    by (simp add: responseToString_def sl Err_def)
  then show ?thesis using responseToString_Inr(1) by simp
qed

text \<open>
  Claim C10.  Whenever \<open>responseToString\<close> returns a string (the one that
  \<open>processAPIRequest\<close> hands to the JSON decoder), that string is the body with its
  line terminators removed; it holds no newline, so it can equal the raw body only
  when the body holds no newline.
\<close>

theorem responseToString_strips_line_terminators:
  assumes "responseToString response = (evs, Inr s)"
  shows "s = strip_line_terminators (Body response)
       \<and> LF \<notin> set s
       \<and> (s = Body response \<longrightarrow> LF \<notin> set (Body response))"
  using responseToString_Inr(1) [OF assms] strip_no_LF [of "Body response"] by auto

theorem responseToString_strips_line_terminators_witness:
  "responseToString \<lparr>Body = ''{'' @ [CR, LF] @ ''\"a\": 1'' @ [LF] @ ''}'', BodyErr = None, EndWithData = False\<rparr>
     = ([BodyClose], Inr ''{\"a\": 1}'')
   \<and> ''{\"a\": 1}'' = strip_line_terminators (''{'' @ [CR, LF] @ ''\"a\": 1'' @ [LF] @ ''}'')
   \<and> LF \<notin> set ''{\"a\": 1}''
   \<and> ''{\"a\": 1}'' \<noteq> ''{'' @ [CR, LF] @ ''\"a\": 1'' @ [LF] @ ''}''"
proof -
  have r: "responseToString \<lparr>Body = ''{'' @ [CR, LF] @ ''\"a\": 1'' @ [LF] @ ''}'', BodyErr = None, EndWithData = False\<rparr>
     = ([BodyClose], Inr ''{\"a\": 1}'')"
    by (simp add: responseToString_short MaxScanTokenSize_def)
  from responseToString_strips_line_terminators [OF r] r show ?thesis by simp
qed

text \<open>
  Claim C3, as amended.  \<open>responseToString\<close> calls \<^verbatim>\<open>response.Body.Close()\<close>, as its
  last action before it returns the text of the body, exactly when the scan of the
  body ended without error: the stream ended with \<^verbatim>\<open>io.EOF\<close> and no line of the body
  has reached the token limit of 64 KiB.  When a line has reached the limit it panics
  with \<^verbatim>\<open>ErrTooLong\<close>, and when the stream ended with a read error it panics with that
  error; in both cases the body has not been closed.
\<close>

theorem responseToString_closes_iff_scan_ok:
  "responseToString response =
     (if has_long_line (EndWithData response) 0 (Body response) then ([], Inl ErrTooLong)
      else if BodyErr response = None \<or> BodyErr response = Some EOF
        then ([BodyClose], Inr (strip_line_terminators (Body response)))
      else ([], Inl (the (BodyErr response))))"
proof -
  obtain acc' e where sl:
    "scan_loop [[]] (Body response) (BodyErr response) (EndWithData response) = (acc', e)"
    by (cases "scan_loop [[]] (Body response) (BodyErr response) (EndWithData response)")
  from scan_loop_error [of "[[]]" "Body response" "BodyErr response" "EndWithData response"] sl
  have e: "e = (if has_long_line (EndWithData response) 0 (Body response)
                then Some ErrTooLong else BodyErr response)"
    by simp
  show ?thesis
  proof (cases "has_long_line (EndWithData response) 0 (Body response)")
    case True
    with e show ?thesis by (simp add: responseToString_def sl Err_def)
  next
    case False
    with e have e': "e = BodyErr response" by simp
    show ?thesis
    proof (cases "BodyErr response = None \<or> BodyErr response = Some EOF")
      case True
      then have "Err e = None" by (auto simp: e' Err_def)
      then have r: "responseToString response = ([BodyClose], Inr (concat acc'))"
        by (simp add: responseToString_def sl)
      from responseToString_Inr(1) [OF r] r False True show ?thesis by simp
    next
      case other: False
      then obtain err where err: "BodyErr response = Some err" "err \<noteq> EOF" by auto
      with sl e'
      have "scan_loop [[]] (Body response) (Some err) (EndWithData response) = (acc', Some err)"
        by simp
      with False other err show ?thesis
        by (simp add: responseToString_def Err_def)
    qed
  qed
qed

theorem responseToString_closes_iff_scan_ok_witness:
  "responseToString \<lparr>Body = ''{}'' @ [LF], BodyErr = None, EndWithData = False\<rparr>
     = ([BodyClose], Inr ''{}'')
   \<and> responseToString \<lparr>Body = ''{}'' @ [LF], BodyErr = Some EOF, EndWithData = True\<rparr>
       = ([BodyClose], Inr ''{}'')
   \<and> responseToString
        \<lparr>Body = ''{}'' @ [LF], BodyErr = Some (Failure ''unexpected EOF''), EndWithData = False\<rparr>
       = ([], Inl (Failure ''unexpected EOF''))
   \<and> responseToString
        \<lparr>Body = replicate MaxScanTokenSize (CHR ''a'') @ [LF], BodyErr = None, EndWithData = False\<rparr>
       = ([], Inl ErrTooLong)"
  using responseToString_closes_iff_scan_ok
      [of "\<lparr>Body = ''{}'' @ [LF], BodyErr = None, EndWithData = False\<rparr>"]
    responseToString_closes_iff_scan_ok
      [of "\<lparr>Body = ''{}'' @ [LF], BodyErr = Some EOF, EndWithData = True\<rparr>"]
    responseToString_closes_iff_scan_ok
      [of "\<lparr>Body = ''{}'' @ [LF], BodyErr = Some (Failure ''unexpected EOF''), EndWithData = False\<rparr>"]
    responseToString_closes_iff_scan_ok
      [of "\<lparr>Body = replicate MaxScanTokenSize (CHR ''a'') @ [LF], BodyErr = None, EndWithData = False\<rparr>"]
  by (simp add: long_line_replicate) (simp add: MaxScanTokenSize_def)

text \<open>At the limit itself the outcome depends on the reader: a last line of exactly
  \<open>MaxScanTokenSize\<close> bytes without newline is returned when the end of the stream comes
  with its last bytes, and is too long when a later read reports the end.\<close>

lemma last_line_at_limit:
  "responseToString \<lparr>Body = replicate MaxScanTokenSize (CHR ''a''), BodyErr = None, EndWithData = True\<rparr>
     = ([BodyClose], Inr (replicate MaxScanTokenSize (CHR ''a'')))"
  "responseToString \<lparr>Body = replicate MaxScanTokenSize (CHR ''a''), BodyErr = None, EndWithData = False\<rparr>
     = ([], Inl ErrTooLong)"
proof -
  have nl: "LF \<notin> set (replicate MaxScanTokenSize (CHR ''a''))"
    and "CR \<notin> set (replicate MaxScanTokenSize (CHR ''a''))" by auto
  note st = strip_plain [OF this]
  obtain acc e where sl: "scan_loop [[]] (replicate MaxScanTokenSize (CHR ''a'')) None True = (acc, e)"
    by (cases "scan_loop [[]] (replicate MaxScanTokenSize (CHR ''a'')) None True")
  from scan_loop_error [of "[[]]" "replicate MaxScanTokenSize (CHR ''a'')" None True] sl
    has_long_line_last [OF nl, of True 0]
  have e: "e = None" by simp
  with scan_loop_result [OF sl] st have "concat acc = replicate MaxScanTokenSize (CHR ''a'')"
    by simp
  with e sl
  show "responseToString \<lparr>Body = replicate MaxScanTokenSize (CHR ''a''), BodyErr = None, EndWithData = True\<rparr>
     = ([BodyClose], Inr (replicate MaxScanTokenSize (CHR ''a'')))"
    by (simp add: responseToString_def Err_def)
  obtain acc' e' where sl': "scan_loop [[]] (replicate MaxScanTokenSize (CHR ''a'')) None False = (acc', e')"
    by (cases "scan_loop [[]] (replicate MaxScanTokenSize (CHR ''a'')) None False")
  from scan_loop_error [of "[[]]" "replicate MaxScanTokenSize (CHR ''a'')" None False] sl'
    has_long_line_last [OF nl, of False 0]
  have "e' = Some ErrTooLong" by simp
  with sl'
  show "responseToString \<lparr>Body = replicate MaxScanTokenSize (CHR ''a''), BodyErr = None, EndWithData = False\<rparr>
     = ([], Inl ErrTooLong)"
    by (simp add: responseToString_def Err_def)
qed

text \<open>The claim as the specification states it fails for a body stream that ends with
  a read error: the function panics with the error and \<^verbatim>\<open>Close\<close> is not called.\<close>

theorem responseToString_read_error_no_Close:
  "responseToString \<lparr>Body = ''{}'', BodyErr = Some (Failure ''unexpected EOF''), EndWithData = False\<rparr>
     = ([], Inl (Failure ''unexpected EOF''))"
  by (simp add: responseToString_def scan_loop.simps Scan_def ScanLines_def Let_def
        MaxScanTokenSize_def dropCR_def Err_def)

section \<open>Properties of processAPIRequest, and some concrete runs\<close>

lemma processAPIRequest_served:
  assumes "server (getAPIURL query options) = Inr response"
  shows "processAPIRequest Unmarshal query options (server # net) =
     (case responseToString response of
        (ev2, Inl err) \<Rightarrow> ([HttpGet (getAPIURL query options)] @ ev2, Abort (Panic err), net)
      | (ev2, Inr stringAnswer) \<Rightarrow>
          (case unmarshalResponse Unmarshal stringAnswer of
             Inl err \<Rightarrow> ([HttpGet (getAPIURL query options)] @ ev2, Abort (Panic err), net)
           | Inr parsedResponse \<Rightarrow>
               ([HttpGet (getAPIURL query options)] @ ev2 @ printResponse parsedResponse,
                Ok (), net)))"
  by (simp add: processAPIRequest_def queryAPI_def assms Let_def split: prod.splits sum.splits)

lemma requests_append: "requests (xs @ ys) = requests xs @ requests ys"
  by (induction xs rule: requests.induct) simp_all

lemma requests_printTopics: "requests (concat (map (printTopic input) keys)) = []"
  by (induction keys) (simp_all add: requests_append printTopic_def Println_def)

lemma requests_printResponse: "requests (printResponse input) = []"
  by (simp add: printResponse_def requests_append requests_printTopics Println_def Print_def)

lemma requests_responseToString: "requests (fst (responseToString response)) = []"
  by (auto simp: responseToString_def split: prod.splits option.splits)

lemma processAPIRequest_requests:
  "requests (fst (processAPIRequest Unmarshal query options net)) = [getAPIURL query options]"
proof (cases net)
  case Nil
  then show ?thesis by (simp add: processAPIRequest_def queryAPI_def)
next
  case (Cons server net')
  show ?thesis
  proof (cases "server (getAPIURL query options)")
    case (Inl err)
    with Cons show ?thesis by (simp add: processAPIRequest_def queryAPI_def)
  next
    case (Inr response)
    from requests_responseToString [of response] show ?thesis
      unfolding Cons processAPIRequest_served [of server query options response, OF Inr]
      by (auto simp: requests_append requests_printResponse split: prod.splits sum.splits)
  qed
qed

lemma processAPIRequest_no_Exit:
  "fst (snd (processAPIRequest Unmarshal query options net)) \<noteq> Abort (Exit code)"
  by (auto simp: processAPIRequest_def queryAPI_def Let_def
        split: list.splits sum.splits prod.splits)

lemma url_go:
  "getAPIURL ''go'' queryOptions =
     ''https://api.duckduckgo.com/?q=go&format=json&pretty=1&no_redirect=1&no_html=1&skip_disambig=1&t=duckduckgo-answers''"
  by (simp add: getAPIURL_def QueryEscape_def shouldEscape_def isAlnum_def byte_def
        queryOptions_def Sprintf_d_def)

lemma url_go_newline:
  "getAPIURL [CHR ''g'', CHR ''o'', LF] queryOptions =
     ''https://api.duckduckgo.com/?q=go%0A&format=json&pretty=1&no_redirect=1&no_html=1&skip_disambig=1&t=duckduckgo-answers''"
  by (simp add: getAPIURL_def QueryEscape_def shouldEscape_def isAlnum_def byte_def
        upperhex_def queryOptions_def Sprintf_d_def)

lemma searchPrompt_go:
  "searchPrompt [Data [CHR ''g'', CHR ''o'', LF]]
     = ([Print (LF # ''Search: '')], Some (Inr [CHR ''g'', CHR ''o'', LF], []))"
  by (simp add: searchPrompt_def TrimSpace_def TrimLeftSpace.simps TrimRightSpace.simps
        DecodeRune_def DecodeLastRune_def IsSpace_def byte_def Let_def)

lemmas json_eval = json_Unmarshal_def parse_json_def lex.simps isSpace_def isDigit_def byte_def
  push_def maxNestingDepth_def unquote.simps fold_matches.simps upper_def DecodeRune_def
  Let_def

lemmas print_eval = printResponse_def printTopic_def Println_def Print_def TerminalColors_def

lemma Unmarshal_hello:
  "json_Unmarshal ''{\"AbstractText\":\"Hello\",\"AbstractURL\":\"\",\"RelatedTopics\":[]}''
     \<lparr>AbstractText = [], AbstractURL = [], RelatedTopics = []\<rparr>
   = (\<lparr>AbstractText = ''Hello'', AbstractURL = [], RelatedTopics = []\<rparr>, None)"
  by (simp add: json_eval)

lemma Unmarshal_html:
  "json_Unmarshal ''<html>'' \<lparr>AbstractText = [], AbstractURL = [], RelatedTopics = []\<rparr>
   = (\<lparr>AbstractText = [], AbstractURL = [], RelatedTopics = []\<rparr>,
      Some (Failure ''json: invalid syntax''))"
  by (simp add: json_eval)

lemma Unmarshal_ab:
  "json_Unmarshal ''{\"AbstractText\":\"ab\"}''
     \<lparr>AbstractText = [], AbstractURL = [], RelatedTopics = []\<rparr>
   = (\<lparr>AbstractText = ''ab'', AbstractURL = [], RelatedTopics = []\<rparr>, None)"
  by (simp add: json_eval)

lemma Unmarshal_a_newline_b:
  "json_Unmarshal (''{\"AbstractText\":\"a'' @ [LF] @ ''b\"}'')
     \<lparr>AbstractText = [], AbstractURL = [], RelatedTopics = []\<rparr>
   = (\<lparr>AbstractText = [], AbstractURL = [], RelatedTopics = []\<rparr>,
      Some (Failure ''json: invalid syntax''))"
  by (simp add: json_eval)

lemma run_hello:
  "processAPIRequest json_Unmarshal ''go'' queryOptions
     [serve \<lparr>Body = ''{\"AbstractText\":\"Hello\",\"AbstractURL\":\"\",\"RelatedTopics\":[]}'',
             BodyErr = None, EndWithData = False\<rparr>]
   = ([HttpGet ''https://api.duckduckgo.com/?q=go&format=json&pretty=1&no_redirect=1&no_html=1&skip_disambig=1&t=duckduckgo-answers'',
       BodyClose,
       Stdout ([LF] @ '' Hello '' @ [LF] @ '' '' @ [LF]),
       Stdout (ESC # ''[33m Related topics: '' @ [LF]),
       Stdout (ESC # ''[0m'')], Ok (), [])"
  by (simp add: processAPIRequest_served serve_def responseToString_short MaxScanTokenSize_def
        unmarshalResponse_def Unmarshal_hello url_go print_eval)

lemma run_html:
  "processAPIRequest json_Unmarshal ''go'' queryOptions
     [serve \<lparr>Body = ''<html>'', BodyErr = None, EndWithData = False\<rparr>]
   = ([HttpGet ''https://api.duckduckgo.com/?q=go&format=json&pretty=1&no_redirect=1&no_html=1&skip_disambig=1&t=duckduckgo-answers'',
       BodyClose], Abort (Panic (Failure ''json: invalid syntax'')), [])"
  by (simp add: processAPIRequest_served serve_def responseToString_short MaxScanTokenSize_def
        unmarshalResponse_def Unmarshal_html url_go)


lemma Unmarshal_two_topics:
  "json_Unmarshal ''{\"AbstractText\":\"X\",\"AbstractURL\":\"http://example.com\",\"RelatedTopics\":[{\"FirstURL\":\"http://a\",\"Text\":\"A\"},{\"FirstURL\":\"http://b\",\"Text\":\"B\"}]}''
     \<lparr>AbstractText = [], AbstractURL = [], RelatedTopics = []\<rparr>
   = (\<lparr>AbstractText = ''X'', AbstractURL = ''http://example.com'',
       RelatedTopics = [\<lparr>FirstURL = ''http://a'', Text = ''A''\<rparr>,
                        \<lparr>FirstURL = ''http://b'', Text = ''B''\<rparr>]\<rparr>, None)"
  by (simp add: json_eval)

lemma printResponse_two_topics:
  "printResponse \<lparr>AbstractText = ''X'', AbstractURL = ''http://example.com'',
       RelatedTopics = [\<lparr>FirstURL = ''http://a'', Text = ''A''\<rparr>,
                        \<lparr>FirstURL = ''http://b'', Text = ''B''\<rparr>]\<rparr>
   = [Stdout ([LF] @ '' X '' @ [LF] @ '' '' @ [LF]),
      Stdout (ESC # ''[33m More info:'' @ [LF]),
      Stdout (ESC # ''[34m '' @ [TAB] @ ''http://example.com'' @ [LF, LF]),
      Stdout (ESC # ''[33m Related topics: '' @ [LF]),
      Stdout (ESC # ''[34m '' @ [TAB] @ ''http://a'' @ [LF]),
      Stdout (ESC # ''[37m '' @ [TAB] @ ''A'' @ [LF, LF]),
      Stdout (ESC # ''[34m '' @ [TAB] @ ''http://b'' @ [LF]),
      Stdout (ESC # ''[37m '' @ [TAB] @ ''B'' @ [LF, LF]),
      Stdout (ESC # ''[0m'')]"
  by (simp add: print_eval upt_rec)

section \<open>Properties of searchPrompt and of the interactive loop\<close>

lemma IsSpace_cases:
  "IsSpace r \<Longrightarrow> r \<in> {0x09, 0x0A, 0x0B, 0x0C, 0x0D, 0x20, 0x85, 0xA0, 0x1680,
     0x2000, 0x2001, 0x2002, 0x2003, 0x2004, 0x2005, 0x2006, 0x2007, 0x2008, 0x2009, 0x200A,
     0x2028, 0x2029, 0x202F, 0x205F, 0x3000}"
  unfolding IsSpace_def by (simp split: if_splits) arith

lemma Decode_Encode_space:
  assumes "IsSpace r"
  shows "DecodeRune (EncodeRune r @ s) = (r, length (EncodeRune r)) \<and> EncodeRune r \<noteq> []"
  using IsSpace_cases [OF assms]
  by (elim insertE emptyE; simp add: DecodeRune_def EncodeRune_def byte_def Let_def)

lemma TrimLeftSpace_space:
  assumes "IsSpace r"
  shows "TrimLeftSpace (EncodeRune r @ s) = TrimLeftSpace s"
  using Decode_Encode_space [OF assms, of s] assms
  by (subst TrimLeftSpace.simps) simp

lemma TrimLeftSpace_white: "white_space_only s \<Longrightarrow> TrimLeftSpace s = []"
proof (induction rule: white_space_only.induct)
  case empty
  show ?case by (simp add: TrimLeftSpace.simps)
next
  case (space r s)
  then show ?case by (simp add: TrimLeftSpace_space)
qed

lemma TrimSpace_white: "white_space_only s \<Longrightarrow> TrimSpace s = []"
  by (simp add: TrimSpace_def TrimLeftSpace_white TrimRightSpace.simps)

lemma ReadString_line:
  "ReadString sofar stdin = Some ((query, None), stdin') \<Longrightarrow>
     \<exists>line. query = sofar @ line @ [LF] \<and> (LF \<in> set line \<longrightarrow> LF \<in> set sofar)"
proof (induction sofar stdin rule: ReadString.induct)
  case (1 sofar)
  then show ?case by simp
next
  case (2 sofar e rest)
  then show ?case by simp
next
  case (3 sofar d rest)
  show ?case
  proof (cases "d = []")
    case True
    with "3.prems" show ?thesis by simp
  next
    case ne: False
    show ?thesis
    proof (cases "LF \<in> set d")
      case True
      with ne "3.prems" have "query = sofar @ takeWhile (\<lambda>c. c \<noteq> LF) d @ [LF]" by simp
      moreover have "LF \<notin> set (takeWhile (\<lambda>c. c \<noteq> LF) d)"
        by (metis (mono_tags, lifting) set_takeWhileD)
      ultimately show ?thesis by blast
    next
      case False
      with ne "3.prems" have "ReadString (sofar @ d) rest = Some ((query, None), stdin')" by simp
      from "3.IH" [OF ne False this] obtain line
        where "query = (sofar @ d) @ line @ [LF]" and "LF \<in> set line \<longrightarrow> LF \<in> set (sofar @ d)"
        by blast
      with False have "query = sofar @ (d @ line) @ [LF]"
        and "LF \<in> set (d @ line) \<longrightarrow> LF \<in> set sofar" by auto
      then show ?thesis by blast
    qed
  qed
qed

lemma searchPrompt_Inr:
  assumes "searchPrompt stdin = (out, Some (Inr query, stdin'))"
  shows "ReadString [] stdin = Some ((query, None), stdin')" and "TrimSpace query \<noteq> []"
    and "out = [Print (LF # ''Search: '')]"
  using assms
  by (auto simp: searchPrompt_def split: option.splits prod.splits if_splits)

lemma interactive_Inl:
  assumes "searchPrompt stdin = (out, Some (Inl err, stdin'))"
  shows "interactive Unmarshal options stdin net =
     (case interactive Unmarshal options stdin' net of
        (evs, e) \<Rightarrow> (out @ [Println [Error err]] @ evs, e))"
  by (subst interactive.simps) (simp add: assms)

lemma interactive_Inr:
  assumes "searchPrompt stdin = (out, Some (Inr userInput, stdin'))"
  shows "interactive Unmarshal options stdin net =
     (case processAPIRequest Unmarshal userInput options net of
        (ev1, Abort e, net') \<Rightarrow> (out @ ev1, e)
      | (ev1, Ok u, net') \<Rightarrow>
          (case interactive Unmarshal options stdin' net' of
             (evs, e) \<Rightarrow> (out @ ev1 @ evs, e)))"
  by (subst interactive.simps) (simp add: assms)

lemma interactive_go:
  "interactive json_Unmarshal queryOptions [Data [CHR ''g'', CHR ''o'', LF]] []
     = ([Print (LF # ''Search: ''),
         HttpGet ''https://api.duckduckgo.com/?q=go%0A&format=json&pretty=1&no_redirect=1&no_html=1&skip_disambig=1&t=duckduckgo-answers''],
        Blocked)"
  by (simp add: interactive_Inr [OF searchPrompt_go] processAPIRequest_def queryAPI_def
        url_go_newline)


lemma blank_line_white: "white_space_only [CHR '' '', TAB, CHR 0xE3, CHR 0x80, CHR 0x80, LF]"
proof -
  have "white_space_only (EncodeRune 0x20 @ EncodeRune 0x09 @ EncodeRune 0x3000 @ EncodeRune 0x0A @ [])"
    by (intro white_space_only.intros) (simp_all add: IsSpace_def)
  then show ?thesis by (simp add: EncodeRune_def char_of_def bit_0)
qed


text \<open>
  Claim C2, as amended.  When \<open>searchPrompt\<close> returns a query, the query is the line
  exactly as \<^verbatim>\<open>ReadString\<close> read it: it ends with the newline that terminated the line
  and holds no other newline, nothing has been trimmed from it (the trimmed copy is
  only tested for emptiness), and this string is the one that the interactive loop
  passes to \<open>processAPIRequest\<close>.
\<close>

theorem searchPrompt_returns_line_with_newline:
  assumes "searchPrompt stdin = (out, Some (Inr query, stdin'))"
  shows "ReadString [] stdin = Some ((query, None), stdin')
       \<and> (\<exists>line. query = line @ [LF] \<and> LF \<notin> set line)
       \<and> TrimSpace query \<noteq> []
       \<and> interactive Unmarshal options stdin net =
           (case processAPIRequest Unmarshal query options net of
              (ev1, Abort e, net') \<Rightarrow> (out @ ev1, e)
            | (ev1, Ok u, net') \<Rightarrow>
                (case interactive Unmarshal options stdin' net' of
                   (evs, e) \<Rightarrow> (out @ ev1 @ evs, e)))"
proof -
  note r = searchPrompt_Inr [OF assms]
  from ReadString_line [OF r(1)] have "\<exists>line. query = line @ [LF] \<and> LF \<notin> set line"
    by auto
  with r interactive_Inr [OF assms] show ?thesis by blast
qed

theorem searchPrompt_returns_line_with_newline_witness:
  "searchPrompt [Data (''go'' @ [LF])]
     = ([Print (LF # ''Search: '')], Some (Inr (''go'' @ [LF]), []))
   \<and> ReadString [] [Data (''go'' @ [LF])] = Some ((''go'' @ [LF], None), [])
   \<and> TrimSpace (''go'' @ [LF]) \<noteq> []
   \<and> interactive json_Unmarshal queryOptions [Data (''go'' @ [LF])] []
       = ([Print (LF # ''Search: ''),
           HttpGet ''https://api.duckduckgo.com/?q=go%0A&format=json&pretty=1&no_redirect=1&no_html=1&skip_disambig=1&t=duckduckgo-answers''],
          Blocked)"
  using searchPrompt_returns_line_with_newline [OF searchPrompt_go, of json_Unmarshal queryOptions "[]"]
    searchPrompt_go
  by (simp add: processAPIRequest_def queryAPI_def url_go_newline)


text \<open>The claim as the specification states it fails: for the input line
  \<^verbatim>\<open>go\<close> followed by a newline, the query returned still ends with the newline.\<close>

theorem searchPrompt_keeps_newline:
  "searchPrompt [Data (''go'' @ [LF])]
     = ([Print (LF # ''Search: '')], Some (Inr (''go'' @ [LF]), []))
   \<and> ''go'' @ [LF] \<noteq> ''go''"
  by (simp add: searchPrompt_def TrimSpace_def TrimLeftSpace.simps TrimRightSpace.simps
        DecodeRune_def DecodeLastRune_def IsSpace_def byte_def Let_def)

text \<open>
  Claim C4.  When the line read is empty or consists only of white space (the
  terminating newline included), \<open>searchPrompt\<close> returns the error
  \<^verbatim>\<open>Invalid input\<close>; the iteration of the interactive loop then only writes the prompt
  and the error, makes no request (the network is left as it was), and the loop goes
  on with the next prompt on the rest of the input.
\<close>

theorem blank_line_not_dispatched:
  assumes "ReadString [] stdin = Some ((line, None), stdin')" and "white_space_only line"
  shows "searchPrompt stdin
           = ([Print (LF # ''Search: '')], Some (Inl (Errorf ''Invalid input''), stdin'))
       \<and> interactive Unmarshal options stdin net =
           (case interactive Unmarshal options stdin' net of
              (evs, e) \<Rightarrow>
                ([Print (LF # ''Search: '')] @ [Println [''Invalid input'']] @ evs, e))"
proof -
  have sp: "searchPrompt stdin
           = ([Print (LF # ''Search: '')], Some (Inl (Errorf ''Invalid input''), stdin'))"
    by (simp add: searchPrompt_def assms(1) TrimSpace_white [OF assms(2)])
  from interactive_Inl [OF sp] sp show ?thesis by simp
qed

theorem blank_line_not_dispatched_witness:
  "ReadString [] [Data [CHR '' '', TAB, CHR 0xE3, CHR 0x80, CHR 0x80, LF], Data (''go'' @ [LF])]
     = Some (([CHR '' '', TAB, CHR 0xE3, CHR 0x80, CHR 0x80, LF], None), [Data (''go'' @ [LF])])
   \<and> white_space_only [CHR '' '', TAB, CHR 0xE3, CHR 0x80, CHR 0x80, LF]
   \<and> searchPrompt [Data [CHR '' '', TAB, CHR 0xE3, CHR 0x80, CHR 0x80, LF], Data (''go'' @ [LF])]
       = ([Print (LF # ''Search: '')], Some (Inl (Errorf ''Invalid input''), [Data (''go'' @ [LF])]))
   \<and> interactive json_Unmarshal queryOptions
        [Data [CHR '' '', TAB, CHR 0xE3, CHR 0x80, CHR 0x80, LF], Data (''go'' @ [LF])] []
       = ([Print (LF # ''Search: ''), Println [''Invalid input''], Print (LF # ''Search: ''),
           HttpGet ''https://api.duckduckgo.com/?q=go%0A&format=json&pretty=1&no_redirect=1&no_html=1&skip_disambig=1&t=duckduckgo-answers''],
          Blocked)"
proof -
  have r: "ReadString [] [Data [CHR '' '', TAB, CHR 0xE3, CHR 0x80, CHR 0x80, LF], Data [CHR ''g'', CHR ''o'', LF]]
     = Some (([CHR '' '', TAB, CHR 0xE3, CHR 0x80, CHR 0x80, LF], None), [Data [CHR ''g'', CHR ''o'', LF]])"
    by simp
  from blank_line_not_dispatched [OF r blank_line_white, of json_Unmarshal queryOptions "[]"]
    r blank_line_white
  show ?thesis by (simp add: interactive_go)
qed

section \<open>Properties of the pipeline and of main\<close>

text \<open>
  Claim C5, as amended.  When the string that \<open>responseToString\<close> returns (the body
  with its line terminators removed) is rejected by \<^verbatim>\<open>json.Unmarshal\<close>, whatever
  function \<^verbatim>\<open>json.Unmarshal\<close> is, \<open>unmarshalResponse\<close> panics with the error and the
  pipeline ends there: its only events are the request and the close of the body,
  and nothing is written.
\<close>

theorem rejected_text_not_rendered:
  assumes "server (getAPIURL query options) = Inr response"
    and "responseToString response = (ev2, Inr stringAnswer)"
    and "Unmarshal stringAnswer \<lparr>AbstractText = [], AbstractURL = [], RelatedTopics = []\<rparr>
           = (v, Some err)"
  shows "stringAnswer = strip_line_terminators (Body response)
       \<and> unmarshalResponse Unmarshal stringAnswer = Inl err
       \<and> processAPIRequest Unmarshal query options (server # net)
           = ([HttpGet (getAPIURL query options), BodyClose], Abort (Panic err), net)"
proof -
  have u: "unmarshalResponse Unmarshal stringAnswer = Inl err"
    by (simp add: unmarshalResponse_def assms(3))
  from responseToString_Inr [OF assms(2)] have s: "stringAnswer = strip_line_terminators (Body response)"
    and ev: "ev2 = [BodyClose]" by simp_all
  from processAPIRequest_served [of server query options response, OF assms(1), of Unmarshal net]
    assms(2) u ev s
  show ?thesis by simp
qed

theorem rejected_text_not_rendered_witness:
  "serve \<lparr>Body = ''<html>'', BodyErr = None, EndWithData = False\<rparr> (getAPIURL ''go'' queryOptions)
     = Inr \<lparr>Body = ''<html>'', BodyErr = None, EndWithData = False\<rparr>
   \<and> responseToString \<lparr>Body = ''<html>'', BodyErr = None, EndWithData = False\<rparr> = ([BodyClose], Inr ''<html>'')
   \<and> json_Unmarshal ''<html>'' \<lparr>AbstractText = [], AbstractURL = [], RelatedTopics = []\<rparr>
       = (\<lparr>AbstractText = [], AbstractURL = [], RelatedTopics = []\<rparr>,
          Some (Failure ''json: invalid syntax''))
   \<and> unmarshalResponse json_Unmarshal ''<html>'' = Inl (Failure ''json: invalid syntax'')
   \<and> processAPIRequest json_Unmarshal ''go'' queryOptions
        [serve \<lparr>Body = ''<html>'', BodyErr = None, EndWithData = False\<rparr>]
       = ([HttpGet (getAPIURL ''go'' queryOptions), BodyClose],
          Abort (Panic (Failure ''json: invalid syntax'')), [])"
proof -
  have a: "serve \<lparr>Body = ''<html>'', BodyErr = None, EndWithData = False\<rparr> (getAPIURL ''go'' queryOptions)
     = Inr \<lparr>Body = ''<html>'', BodyErr = None, EndWithData = False\<rparr>"
    by (simp add: serve_def)
  have b: "responseToString \<lparr>Body = ''<html>'', BodyErr = None, EndWithData = False\<rparr> = ([BodyClose], Inr ''<html>'')"
    by (simp add: responseToString_short MaxScanTokenSize_def)
  from rejected_text_not_rendered [of "serve \<lparr>Body = ''<html>'', BodyErr = None, EndWithData = False\<rparr>" "''go''"
      queryOptions "\<lparr>Body = ''<html>'', BodyErr = None, EndWithData = False\<rparr>" "[BodyClose]" "''<html>''"
      json_Unmarshal _ _ "[]", OF a b Unmarshal_html] a b Unmarshal_html
  show ?thesis by simp
qed

text \<open>The claim as the specification states it fails: the body below, a string
  literal broken by a newline, is not valid JSON, yet the pipeline renders it, since
  the text handed to the decoder has lost the newline.\<close>

theorem invalid_body_rendered:
  "snd (json_Unmarshal (''{\"AbstractText\":\"a'' @ [LF] @ ''b\"}'')
          \<lparr>AbstractText = [], AbstractURL = [], RelatedTopics = []\<rparr>)
     = Some (Failure ''json: invalid syntax'')
   \<and> processAPIRequest json_Unmarshal ''go'' queryOptions
        [serve \<lparr>Body = ''{\"AbstractText\":\"a'' @ [LF] @ ''b\"}'', BodyErr = None, EndWithData = False\<rparr>]
       = ([HttpGet ''https://api.duckduckgo.com/?q=go&format=json&pretty=1&no_redirect=1&no_html=1&skip_disambig=1&t=duckduckgo-answers'',
           BodyClose,
           Stdout ([LF] @ '' ab '' @ [LF] @ '' '' @ [LF]),
           Stdout (ESC # ''[33m Related topics: '' @ [LF]),
           Stdout (ESC # ''[0m'')], Ok (), [])"
proof -
  have "snd (json_Unmarshal (''{\"AbstractText\":\"a'' @ [LF] @ ''b\"}'')
          \<lparr>AbstractText = [], AbstractURL = [], RelatedTopics = []\<rparr>)
     = Some (Failure ''json: invalid syntax'')"
    by (simp only: Unmarshal_a_newline_b snd_conv)
  moreover have "processAPIRequest json_Unmarshal ''go'' queryOptions
        [serve \<lparr>Body = ''{\"AbstractText\":\"a'' @ [LF] @ ''b\"}'', BodyErr = None, EndWithData = False\<rparr>]
       = ([HttpGet ''https://api.duckduckgo.com/?q=go&format=json&pretty=1&no_redirect=1&no_html=1&skip_disambig=1&t=duckduckgo-answers'',
           BodyClose,
           Stdout ([LF] @ '' ab '' @ [LF] @ '' '' @ [LF]),
           Stdout (ESC # ''[33m Related topics: '' @ [LF]),
           Stdout (ESC # ''[0m'')], Ok (), [])"
    by (simp add: processAPIRequest_served serve_def responseToString_short
          MaxScanTokenSize_def unmarshalResponse_def Unmarshal_ab url_go print_eval)
  ultimately show ?thesis by blast
qed

text \<open>
  Claim C6, as amended.  With the help flag, \<open>main\<close> prints the usage and exits with
  status \<open>-1\<close> before anything else, also when a search flag is given.  Without the
  help flag and with a non-empty search flag, \<open>main\<close> runs \<open>processAPIRequest\<close> once,
  for the text of the flag: exactly one request is made, and the run ends with exit
  status 1 exactly when the pipeline completes; otherwise it ends the way the pipeline
  was cut short (a panic, or a request that never returns).
\<close>

theorem main_help_and_one_shot:
  "(flagHelp fl \<longrightarrow> main Unmarshal fl stdin net = ([PrintDefaults], Exit (- 1)))
   \<and> (\<not> flagHelp fl \<and> flagSearch fl \<noteq> [] \<longrightarrow>
        main Unmarshal fl stdin net =
          (case processAPIRequest Unmarshal (flagSearch fl) queryOptions net of
             (evs, Abort e, net') \<Rightarrow> (evs, e)
           | (evs, Ok u, net') \<Rightarrow> (evs, Exit 1))
        \<and> requests (fst (main Unmarshal fl stdin net)) = [getAPIURL (flagSearch fl) queryOptions]
        \<and> (snd (main Unmarshal fl stdin net) = Exit 1)
            = (fst (snd (processAPIRequest Unmarshal (flagSearch fl) queryOptions net)) = Ok ()))"
proof -
  have with_help: "flagHelp fl \<longrightarrow> main Unmarshal fl stdin net = ([PrintDefaults], Exit (- 1))"
    by (simp add: main_def)
  have one_shot: "main Unmarshal fl stdin net =
          (case processAPIRequest Unmarshal (flagSearch fl) queryOptions net of
             (evs, Abort e, net') \<Rightarrow> (evs, e)
           | (evs, Ok u, net') \<Rightarrow> (evs, Exit 1))
        \<and> requests (fst (main Unmarshal fl stdin net)) = [getAPIURL (flagSearch fl) queryOptions]
        \<and> (snd (main Unmarshal fl stdin net) = Exit 1)
            = (fst (snd (processAPIRequest Unmarshal (flagSearch fl) queryOptions net)) = Ok ())"
    if h: "\<not> flagHelp fl" and s: "flagSearch fl \<noteq> []"
  proof -
    obtain evs r net' where p:
      "processAPIRequest Unmarshal (flagSearch fl) queryOptions net = (evs, r, net')"
      by (cases "processAPIRequest Unmarshal (flagSearch fl) queryOptions net") auto
    from processAPIRequest_requests [of Unmarshal "flagSearch fl" queryOptions net] p
    have req: "requests evs = [getAPIURL (flagSearch fl) queryOptions]" by simp
    from processAPIRequest_no_Exit [of Unmarshal "flagSearch fl" queryOptions net 1] p
    have ne: "r \<noteq> Abort (Exit 1)" by simp
    show ?thesis
    proof (cases r)
      case (Ok u)
      with h s p req show ?thesis by (simp add: main_def)
    next
      case (Abort e)
      with h s p req ne show ?thesis by (simp add: main_def)
    qed
  qed
  from with_help one_shot show ?thesis by blast
qed

theorem main_help_and_one_shot_witness:
  "flagHelp \<lparr>flagSearch = [], flagHelp = True\<rparr>
   \<and> main json_Unmarshal \<lparr>flagSearch = [], flagHelp = True\<rparr> [] [] = ([PrintDefaults], Exit (- 1))
   \<and> \<not> flagHelp \<lparr>flagSearch = ''go'', flagHelp = False\<rparr>
   \<and> flagSearch \<lparr>flagSearch = ''go'', flagHelp = False\<rparr> \<noteq> []
   \<and> main json_Unmarshal \<lparr>flagSearch = ''go'', flagHelp = False\<rparr> []
        [serve \<lparr>Body = ''{\"AbstractText\":\"Hello\",\"AbstractURL\":\"\",\"RelatedTopics\":[]}'',
                BodyErr = None, EndWithData = False\<rparr>]
       = ([HttpGet ''https://api.duckduckgo.com/?q=go&format=json&pretty=1&no_redirect=1&no_html=1&skip_disambig=1&t=duckduckgo-answers'',
           BodyClose,
           Stdout ([LF] @ '' Hello '' @ [LF] @ '' '' @ [LF]),
           Stdout (ESC # ''[33m Related topics: '' @ [LF]),
           Stdout (ESC # ''[0m'')], Exit 1)"
  using main_help_and_one_shot [of "\<lparr>flagSearch = [], flagHelp = True\<rparr>" json_Unmarshal "[]" "[]"]
    main_help_and_one_shot [of "\<lparr>flagSearch = ''go'', flagHelp = False\<rparr>" json_Unmarshal "[]"
      "[serve \<lparr>Body = ''{\"AbstractText\":\"Hello\",\"AbstractURL\":\"\",\"RelatedTopics\":[]}'',
                BodyErr = None, EndWithData = False\<rparr>]"]
  by (simp add: run_hello)

text \<open>The claim as the specification states it fails in two ways: with both flags the
  pipeline is not run at all, and with a response that cannot be decoded the run ends
  in a panic, not with exit status 1.\<close>

theorem main_search_flag_without_exit_1:
  "main json_Unmarshal \<lparr>flagSearch = ''go'', flagHelp = True\<rparr> []
        [serve \<lparr>Body = ''{\"AbstractText\":\"Hello\",\"AbstractURL\":\"\",\"RelatedTopics\":[]}'',
                BodyErr = None, EndWithData = False\<rparr>]
     = ([PrintDefaults], Exit (- 1))
   \<and> main json_Unmarshal \<lparr>flagSearch = ''go'', flagHelp = False\<rparr> []
        [serve \<lparr>Body = ''<html>'', BodyErr = None, EndWithData = False\<rparr>]
       = ([HttpGet ''https://api.duckduckgo.com/?q=go&format=json&pretty=1&no_redirect=1&no_html=1&skip_disambig=1&t=duckduckgo-answers'',
           BodyClose], Panic (Failure ''json: invalid syntax''))"
  by (simp add: main_def run_html)

end
